theory Spec2Isabelle
  imports Main "HOL-Library.Sublist"
begin

section \<open>Strings as Python sees them\<close>

text \<open>
  The installer is Python; its strings are modelled as \<open>string\<close> (lists of characters).
  The three characters the literals of the source escape are named here: in a Python
  literal \<^verbatim>\<open>"\\"\<close> is one backslash.
\<close>

abbreviation bs :: char where "bs \<equiv> CHR 0x5C"
abbreviation dq :: char where "dq \<equiv> CHR 0x22"
abbreviation nl :: char where "nl \<equiv> CHR 0x0A"

text \<open>
  \<^verbatim>\<open>s.replace(old, new)\<close>: a scan from the left that replaces every non-overlapping
  occurrence of \<open>old\<close>. The counter is the number of characters of a match still to be
  skipped. For the empty pattern Python puts \<open>new\<close> around every character.
\<close>

fun replace_scan :: "string \<Rightarrow> string \<Rightarrow> nat \<Rightarrow> string \<Rightarrow> string" where
  "replace_scan old new k [] = []"
| "replace_scan old new (Suc k) (c # cs) = replace_scan old new k cs"
| "replace_scan old new 0 (c # cs) =
     (if prefix old (c # cs) then new @ replace_scan old new (length old - 1) cs
      else c # replace_scan old new 0 cs)"

definition py_replace :: "string \<Rightarrow> string \<Rightarrow> string \<Rightarrow> string" where
  "py_replace old new s =
     (if old = [] then new @ concat (map (\<lambda>c. c # new) s) else replace_scan old new 0 s)"

text \<open>\<^verbatim>\<open>sub in s\<close>: \<open>sub\<close> occurs in \<open>s\<close> as a contiguous piece.\<close>

fun py_in :: "string \<Rightarrow> string \<Rightarrow> bool" where
  "py_in sub [] = (sub = [])"
| "py_in sub (c # cs) = (prefix sub (c # cs) \<or> py_in sub cs)"

text \<open>
  \<^verbatim>\<open>s.lower()\<close> on the ASCII letters. (No character outside ASCII lower-cases to one of
  the letters of \<^verbatim>\<open>spore\<close>, the only text the source compares a lowered string with.)
\<close>

definition lower_char :: "char \<Rightarrow> char" where
  "lower_char c =
     (let n = (of_char c :: nat) in if 65 \<le> n \<and> n \<le> 90 then char_of (n + 32) else c)"

definition lower :: "string \<Rightarrow> string" where
  "lower s = map lower_char s"

text \<open>The number of positions of \<open>s\<close> at which \<open>tok\<close> starts.\<close>

fun count_occ :: "string \<Rightarrow> string \<Rightarrow> nat" where
  "count_occ tok [] = 0"
| "count_occ tok (c # cs) = (if prefix tok (c # cs) then 1 else 0) + count_occ tok cs"

text \<open>\<^verbatim>\<open>s.split(sep)\<close> for a one-character separator.\<close>

fun split_on :: "char \<Rightarrow> string \<Rightarrow> string list" where
  "split_on sep [] = [[]]"
| "split_on sep (c # cs) =
     (if c = sep then [] # split_on sep cs
      else (case split_on sep cs of [] \<Rightarrow> [[c]] | l # ls \<Rightarrow> (c # l) # ls))"

section \<open>Path translator\<close>

text \<open>
  \<^verbatim>\<open>convert_to_wine_path_display\<close>: \<^verbatim>\<open>"Z:\\" + linux_path.replace("/", "\\")\<close>, and
  \<^verbatim>\<open>convert_to_wine_path_registry\<close>:
  \<^verbatim>\<open>"Z:\\\\" + linux_path.replace("/", "\\\\")\<close>.
\<close>

definition convert_to_wine_path_display :: "string \<Rightarrow> string" where
  "convert_to_wine_path_display linux_path = ''Z:'' @ [bs] @ py_replace ''/'' [bs] linux_path"

definition convert_to_wine_path_registry :: "string \<Rightarrow> string" where
  "convert_to_wine_path_registry linux_path =
     ''Z:'' @ [bs, bs] @ py_replace ''/'' [bs, bs] linux_path"

section \<open>Registry document\<close>

text \<open>
  The f-string \<^verbatim>\<open>reg_content\<close> of \<^verbatim>\<open>create_spore_registry\<close>, line by line; every line of
  the template ends with a line break.
\<close>

definition hklm_ea :: string where
  "hklm_ea = ''[HKEY_LOCAL_MACHINE'' @ [bs] @ ''Software'' @ [bs] @ ''Wow6432Node'' @ [bs]
     @ ''electronic arts'' @ [bs]"

definition reg_lines :: "string \<Rightarrow> string list" where
  \<open>reg_lines spore_path =
     (let wine_spore_path = convert_to_wine_path_registry spore_path;
          wine_data_path = wine_spore_path @ [bs, bs] @ ''Data'';
          wine_dataep1_path = wine_spore_path @ [bs, bs] @ ''DataEP1'';
          wine_bp1_path = wine_spore_path @ [bs, bs] @ ''bp1content''
      in [''Windows Registry Editor Version 5.00'',
          '''',
          hklm_ea @ ''spore]'',
          ''"appdir"="Spore"'',
          ''"datadir"="'' @ wine_data_path @ ''"'',
          ''"locale"="en-us"'',
          ''"playerdir"="My Spore Creations"'',
          '''',
          hklm_ea @ ''ea games'' @ [bs] @ ''spore(tm)'' @ [bs] @ ''ergc]'',
          ''@="%CDKEY%"'',
          '''',
          hklm_ea @ ''SPORE Creepy and Cute Parts Pack]'',
          ''"AddOnID"=dword:00000001'',
          ''"datadir"="'' @ wine_bp1_path @ [bs, bs] @ ''"'',
          ''"PackID"=dword:06f4b5d1'',
          '''',
          hklm_ea @ ''SPORE_EP1]'',
          ''"AddOnID"=dword:00000002'',
          ''"datadir"="'' @ wine_dataep1_path @ [bs, bs] @ ''"'',
          ''"PackID"=dword:07a7f786'',
          ''"ProductKey"="%CDKEY%"''])\<close>

definition reg_content :: "string \<Rightarrow> string" where
  "reg_content spore_path = concat (map (\<lambda>l. l @ [nl]) (reg_lines spore_path))"

text \<open>
  A key-block header of a registry document is a line that opens with a bracket; the
  placeholder token is \<^verbatim>\<open>%CDKEY%\<close>.
\<close>

definition key_headers :: "string \<Rightarrow> string list" where
  "key_headers doc = filter (\<lambda>l. prefix ''['' l) (split_on nl doc)"

definition cdkey :: string where
  "cdkey = ''%CDKEY%''"


section \<open>Paths and the file system\<close>

text \<open>
  A \<^verbatim>\<open>pathlib.Path\<close> is modelled by the list of its components below the root; all paths
  the installer handles are absolute. \<open>pjoin\<close> is the \<^verbatim>\<open>/\<close> operator, \<open>str\<close> is \<^verbatim>\<open>str()\<close>.
\<close>

type_synonym path = "string list"

definition path_of :: "string \<Rightarrow> path" where
  "path_of s = filter (\<lambda>c. c \<noteq> [] \<and> c \<noteq> ''.'') (split_on (CHR ''/'') s)"

definition pjoin :: "path \<Rightarrow> string \<Rightarrow> path" where
  "pjoin p s = (if prefix ''/'' s then path_of s else p @ path_of s)"

definition str :: "path \<Rightarrow> string" where
  "str p = (if p = [] then ''/'' else concat (map (\<lambda>c. CHR ''/'' # c) p))"

definition parent :: "path \<Rightarrow> path" where
  "parent p = butlast p"

text \<open>
  The file system is a map from paths to nodes. A file carries its text and its
  permission bits. The operations are the ones the installer calls; they are total here:
  a host that refuses one (permissions, a full disk) is outside the model.
\<close>

datatype node = Dir | File (content: string) (mode: nat)

type_synonym filesystem = "path \<rightharpoonup> node"

definition exists :: "filesystem \<Rightarrow> path \<Rightarrow> bool" where
  "exists f p = (f p \<noteq> None)"

definition mkdir_parents :: "filesystem \<Rightarrow> path \<Rightarrow> filesystem" where
  \<comment> \<open>\<^verbatim>\<open>mkdir(parents=True, exist_ok=True)\<close>\<close>
  "mkdir_parents f p = (\<lambda>q. if prefix q p \<and> f q = None then Some Dir else f q)"

definition touch :: "filesystem \<Rightarrow> path \<Rightarrow> filesystem" where
  "touch f p = (if f p = None then f(p \<mapsto> File [] 420) else f)"



definition unlink_missing_ok :: "filesystem \<Rightarrow> path \<Rightarrow> filesystem" where
  \<comment> \<open>\<^verbatim>\<open>unlink(missing_ok=True)\<close>: an absent file is not an error\<close>
  "unlink_missing_ok f p = f(p := None)"

section \<open>The world: file system and observable events\<close>

text \<open>
  Everything the installer does besides returning a value is an event of the trace, in
  program order, or a change of the file system: the messages to the log and progress
  sinks, every call of a collaborator, every spawned process with its argument vector and
  environment, and every file-system mutation.
\<close>

datatype event =
    Log string
  | LogError string
  | LogCallback string
  | Progress nat
  | FindAllGames
  | GetSteamRoot
  | DepSetLogCallback
  | DepSetProgressCallback
  | DepInstall "string list" string string string string string
  | GetLatestRelease
  | DownloadFile string string
  | Run "string list" "string \<rightharpoonup> string" nat
  | Popen "string list" "string \<rightharpoonup> string"
  | FsMkdir path
  | FsTouch path
  | FsWrite path
  | FsChmod path nat
  | FsUnlink path

record world =
  fs :: filesystem
  trace :: "event list"

definition emit :: "event \<Rightarrow> world \<Rightarrow> world" where
  "emit e w = w\<lparr>trace := trace w @ [e]\<rparr>"

definition log_progress :: "string \<Rightarrow> world \<Rightarrow> world" where
  "log_progress msg w = emit (Log msg) w"

definition logger_error :: "string \<Rightarrow> world \<Rightarrow> world" where
  "logger_error msg w = emit (LogError msg) w"

definition send_progress_update :: "nat \<Rightarrow> world \<Rightarrow> world" where
  "send_progress_update n w = emit (Progress n) w"

definition do_mkdir :: "path \<Rightarrow> world \<Rightarrow> world" where
  "do_mkdir p w = emit (FsMkdir p) (w\<lparr>fs := mkdir_parents (fs w) p\<rparr>)"

definition do_touch :: "path \<Rightarrow> world \<Rightarrow> world" where
  "do_touch p w = emit (FsTouch p) (w\<lparr>fs := touch (fs w) p\<rparr>)"



definition do_unlink :: "path \<Rightarrow> world \<Rightarrow> world" where
  "do_unlink p w = emit (FsUnlink p) (w\<lparr>fs := unlink_missing_ok (fs w) p\<rparr>)"

section \<open>Collaborators\<close>

text \<open>
  The game finder, the runtime manager, the dependency installer, the downloader, the
  Steam utilities and the operating system are not part of the installer. What they
  answer during one call of the installer is an input of the model. A collaborator
  that raises answers \<open>Raises\<close> with the text of the exception.
\<close>

datatype 'a outcome = Returns 'a | Raises string

record game =
  name :: string
  gpath :: string
  platform :: string

record asset =
  asset_name :: string
  browser_download_url :: string

record release =
  tag_name :: string
  assets :: "asset list"

text \<open>The dictionary of \<^verbatim>\<open>_install_dependencies_unified\<close>: its keys \<^verbatim>\<open>success\<close> and \<^verbatim>\<open>error\<close>.\<close>

record dep_result =
  success :: bool
  error :: string

text \<open>\<^verbatim>\<open>subprocess.run(..., timeout=60)\<close>: the process ends with a return code and its
  captured error text, or the wait is cut off (\<^verbatim>\<open>TimeoutExpired\<close>), or it cannot be started.\<close>

datatype run_outcome = Completed int string | TimedOut string | RunRaised string

datatype popen_outcome = Started | PopenTimedOut | PopenRaised string

text \<open>\<^verbatim>\<open>from src.utils.steam_utils import SteamUtils\<close>, \<^verbatim>\<open>SteamUtils()\<close> and
  \<^verbatim>\<open>get_steam_root()\<close>: the import or the constructor may fail, or the call.\<close>

datatype steam_outcome = SteamRoot string | SteamRootRaises string | SteamUtilsRaises string

record collab =
  find_all_games :: "game list outcome"
  active_proton_path :: "path option"
  environ :: "string \<rightharpoonup> string"
  temp_name :: path
  regedit_run :: run_outcome
  popen_start :: popen_outcome
  steam_root :: steam_outcome
  install_dependencies :: "dep_result outcome"
  latest_release :: "release option outcome"
  download_file :: "string option outcome"
  prefixes_dir :: path

section \<open>Game locator step\<close>

text \<open>
  \<^verbatim>\<open>find_spore_game\<close>: the loop over the games of the finder is \<open>first_spore\<close>; the
  dictionary it returns has the three fields of the game it found.
\<close>

fun first_spore :: "game list \<Rightarrow> game option" where
  "first_spore [] = None"
| "first_spore (g # gs) =
     (if py_in ''spore'' (lower (name g)) then Some g else first_spore gs)"

definition find_spore_game :: "collab \<Rightarrow> world \<Rightarrow> game option \<times> world" where
  "find_spore_game c w =
     (let w1 = emit FindAllGames (log_progress ''Searching for Spore installation...'' w)
      in case find_all_games c of
           Raises e \<Rightarrow> (None, logger_error (''Failed to find Spore: '' @ e) w1)
         | Returns all_games \<Rightarrow>
             (case first_spore all_games of
                Some g \<Rightarrow>
                  (Some \<lparr>name = name g, gpath = gpath g, platform = platform g\<rparr>,
                   log_progress (''Found Spore: '' @ name g @ '' at '' @ gpath g) w1)
              | None \<Rightarrow> (None, log_progress ''Spore installation not found'' w1)))"

section \<open>Process launcher and registry import\<close>

definition wine64 :: "path \<Rightarrow> path" where
  \<comment> \<open>\<^verbatim>\<open>proton_path.parent / "files" / "bin" / "wine64"\<close>\<close>
  "wine64 proton_path = pjoin (pjoin (pjoin (parent proton_path) ''files'') ''bin'') ''wine64''"

definition wineserver :: "path \<Rightarrow> path" where
  "wineserver proton_path =
     pjoin (pjoin (pjoin (parent proton_path) ''files'') ''bin'') ''wineserver''"

definition ld_library_path :: string where
  "ld_library_path = ''/usr/lib:/usr/lib/x86_64-linux-gnu:/lib:/lib/x86_64-linux-gnu''"

definition create_temp :: "path \<Rightarrow> string \<Rightarrow> world \<Rightarrow> world" where
  \<comment> \<open>\<^verbatim>\<open>NamedTemporaryFile(mode='w', suffix='.reg', delete=False)\<close>, written and closed\<close>
  "create_temp p s w = emit (FsWrite p) (w\<lparr>fs := (fs w)(p \<mapsto> File s 384)\<rparr>)"

definition create_spore_registry :: "collab \<Rightarrow> string \<Rightarrow> path \<Rightarrow> world \<Rightarrow> bool \<times> world" where
  "create_spore_registry c spore_path prefix_path w =
     (let w1 = log_progress ''Creating Spore registry entries...'' w;
          reg_file = temp_name c;
          w2 = create_temp reg_file (reg_content spore_path) w1
      in case active_proton_path c of
           None \<Rightarrow> (False, log_progress ''Error: No active Proton-GE version'' w2)
         | Some proton_path \<Rightarrow>
             (let wine_path = wine64 proton_path;
                  env = (environ c)(''WINEPREFIX'' \<mapsto> str prefix_path,
                                    ''LD_LIBRARY_PATH'' \<mapsto> ld_library_path);
                  w3 = emit (Run [str wine_path, ''regedit'', str reg_file] env 60) w2
              in case regedit_run c of
                   Completed returncode stderr \<Rightarrow>
                     (let w4 = do_unlink reg_file w3
                      in if returncode = 0
                         then (True, log_progress ''[OK] Spore registry entries applied'' w4)
                         else (False,
                               logger_error (''Registry application failed: '' @ stderr) w4))
                 | TimedOut e \<Rightarrow>
                     (False, logger_error (''Failed to create registry: '' @ e) w3)
                 | RunRaised e \<Rightarrow>
                     (False, logger_error (''Failed to create registry: '' @ e) w3)))"

section \<open>Installer download\<close>

fun find_asset :: "asset list \<Rightarrow> asset option" where
  "find_asset [] = None"
| "find_asset (a # as) =
     (if asset_name a = ''ModAPI.InterimSetup.exe'' then Some a else find_asset as)"

text \<open>\<^verbatim>\<open>asset_url\<close> starts as \<^verbatim>\<open>None\<close>; the empty text stands for it, both are false in
  \<^verbatim>\<open>if not asset_url\<close>.\<close>

definition download_modapi_installer :: "collab \<Rightarrow> world \<Rightarrow> path option \<times> world" where
  "download_modapi_installer c w =
     (let w1 = emit GetLatestRelease
                 (log_progress ''Downloading ModAPI installer from GitHub...'' w)
      in case latest_release c of
           Raises e \<Rightarrow> (None, logger_error (''Failed to download installer: '' @ e) w1)
         | Returns None \<Rightarrow> (None, log_progress ''Error: Could not fetch latest release'' w1)
         | Returns (Some rel) \<Rightarrow>
             (let (asset_url, w2) =
                    (case find_asset (assets rel) of
                       None \<Rightarrow> ([], w1)
                     | Some a \<Rightarrow>
                         (browser_download_url a,
                          log_progress
                            (''Found ModAPI.InterimSetup.exe in release '' @ tag_name rel) w1))
              in if asset_url = []
                 then (None,
                       log_progress ''Error: ModAPI.InterimSetup.exe not found in release'' w2)
                 else
                   (let w3 = emit (DownloadFile asset_url ''ModAPI.InterimSetup.exe'')
                               (log_progress ''Downloading ModAPI.InterimSetup.exe...'' w2)
                    in case download_file c of
                         Raises e \<Rightarrow>
                           (None, logger_error (''Failed to download installer: '' @ e) w3)
                       | Returns downloaded \<Rightarrow>
                           (case downloaded of
                              None \<Rightarrow>
                                (None,
                                 log_progress
                                   ''Error: Failed to download ModAPI.InterimSetup.exe'' w3)
                            | Some f \<Rightarrow>
                                if f = []
                                then (None,
                                      log_progress
                                        ''Error: Failed to download ModAPI.InterimSetup.exe'' w3)
                                else (Some (path_of f),
                                      log_progress (''Downloaded installer to: '' @ f) w3)))))"

section \<open>Installer launch\<close>

definition instructions :: "string \<Rightarrow> string \<Rightarrow> string" where
  \<open>instructions wine_path_display spore_path =
     ''Installer opened! Follow these steps:'' @ [nl] @ [nl]
     @ ''1. Click "I am installing...for the first time"'' @ [nl] @ [nl]
     @ ''2. Install location (recommended):'' @ [nl]
     @ ''   '' @ wine_path_display @ [nl] @ [nl]
     @ ''3. Complete and click "Exit"'' @ [nl] @ [nl]
     @ ''(Spore dir: '' @ spore_path @ '')''\<close>

definition launch_installer_with_instructions ::
  "collab \<Rightarrow> path \<Rightarrow> path \<Rightarrow> string \<Rightarrow> world \<Rightarrow> bool \<times> world" where
  "launch_installer_with_instructions c installer_exe prefix_path spore_path w =
     (let wine_path_display = convert_to_wine_path_display spore_path;
          w1 = log_progress (instructions wine_path_display spore_path) w
      in case active_proton_path c of
           None \<Rightarrow> (False, log_progress ''Error: No active Proton-GE version'' w1)
         | Some proton_path \<Rightarrow>
             (let wine_path = wine64 proton_path;
                  env = (environ c)(''WINEPREFIX'' \<mapsto> str prefix_path,
                                    ''LD_LIBRARY_PATH'' \<mapsto> ld_library_path);
                  w2 = emit (Popen [str wine_path, str installer_exe] env) w1
              in case popen_start c of
                   Started \<Rightarrow>
                     (True,
                      log_progress ''Then return to NaK to finish setup.''
                        (log_progress
                           ''Installer launched. Complete the installation and click Exit.'' w2))
                 | PopenTimedOut \<Rightarrow> (True, log_progress ''Warning: Installer timeout'' w2)
                 | PopenRaised e \<Rightarrow>
                     (False,
                      log_progress (''Error launching installer: '' @ e)
                        (logger_error (''Failed to launch installer: '' @ e) w2))))"

section \<open>Sandbox locator\<close>

definition default_path :: "path \<Rightarrow> path" where
  "default_path prefix_path =
     pjoin (pjoin (pjoin prefix_path ''drive_c'') ''ProgramData'') ''SPORE ModAPI Launcher Kit''"

definition alt_path1 :: "path \<Rightarrow> path" where
  "alt_path1 prefix_path =
     pjoin (pjoin (pjoin prefix_path ''drive_c'') ''Program Files (x86)'')
       ''Spore ModAPI Launcher Kit''"

definition alt_path2 :: "path \<Rightarrow> path" where
  "alt_path2 prefix_path =
     pjoin (pjoin (pjoin prefix_path ''drive_c'') ''Program Files'') ''Spore ModAPI Launcher Kit''"

definition find_modapi_installation :: "path \<Rightarrow> world \<Rightarrow> path option \<times> world" where
  "find_modapi_installation prefix_path w =
     (let w1 = log_progress ''Locating ModAPI installation...'' w
      in if exists (fs w1) (pjoin (default_path prefix_path) ''Spore ModAPI Launcher.exe'')
         then (Some (default_path prefix_path),
               log_progress (''Found ModAPI installation at: '' @ str (default_path prefix_path)) w1)
         else if exists (fs w1) (pjoin (alt_path1 prefix_path) ''Spore ModAPI Launcher.exe'')
         then (Some (alt_path1 prefix_path),
               log_progress (''Found ModAPI installation at: '' @ str (alt_path1 prefix_path)) w1)
         else if exists (fs w1) (pjoin (alt_path2 prefix_path) ''Spore ModAPI Launcher.exe'')
         then (Some (alt_path2 prefix_path),
               log_progress (''Found ModAPI installation at: '' @ str (alt_path2 prefix_path)) w1)
         else (None,
               log_progress ''ERROR: Could not find ModAPI installation in Wine prefix'' w1))"

section \<open>Launch script generator\<close>










section \<open>Install pipeline\<close>

text \<open>
  The dependency step of \<^verbatim>\<open>install\<close> (the marker check and its two branches). It lets the
  pipeline go on, makes it return \<^verbatim>\<open>False\<close>, or raises into the handler of \<^verbatim>\<open>install\<close>.
\<close>

datatype step = Continue | ReturnFalse | Raised string

definition dependency_marker :: "path \<Rightarrow> path" where
  "dependency_marker prefix_path = pjoin prefix_path ''.dependencies_installed''"

definition ensure_dependencies ::
  "collab \<Rightarrow> bool \<Rightarrow> bool \<Rightarrow> path \<Rightarrow> world \<Rightarrow> step \<times> world" where
  "ensure_dependencies c has_log_callback has_progress_callback prefix_path w =
     (if exists (fs w) (dependency_marker prefix_path)
      then (Continue, log_progress ''Dependencies already installed, skipping...'' w)
      else
        (let w1 = log_progress
                    ''Installing Windows dependencies (vcrun2022, d3dcompiler_43)...'' w
         in case active_proton_path c of
              None \<Rightarrow> (ReturnFalse, log_progress ''ERROR: No active Proton-GE version'' w1)
            | Some proton_path \<Rightarrow>
                (let wine_path = wine64 proton_path;
                     wineserver_path = wineserver proton_path;
                     w2 = (if has_log_callback then emit DepSetLogCallback w1 else w1);
                     w3 = (if has_progress_callback then emit DepSetProgressCallback w2 else w2);
                     dependencies = [''vcrun2022'', ''d3dcompiler_43''];
                     steam_compat_data = str (parent prefix_path)
                 in case steam_root c of
                      SteamUtilsRaises e \<Rightarrow> (Raised e, w3)
                    | answer \<Rightarrow>
                        (let w4 = emit GetSteamRoot w3;
                             steam_client_path =
                               (case answer of SteamRoot r \<Rightarrow> r | _ \<Rightarrow> ''/tmp'');
                             w5 = emit (DepInstall dependencies (str wine_path)
                                          (str wineserver_path) (str prefix_path)
                                          steam_compat_data steam_client_path) w4
                         in case install_dependencies c of
                              Raises e \<Rightarrow> (Raised e, w5)
                            | Returns result \<Rightarrow>
                                if \<not> success result
                                then (ReturnFalse,
                                      log_progress
                                        (''ERROR: Failed to install dependencies: ''
                                         @ error result) w5)
                                else (Continue,
                                      log_progress ''[OK] Dependencies installed successfully''
                                        (do_touch (dependency_marker prefix_path) w5))))))"

text \<open>The handler around the body of \<^verbatim>\<open>install\<close>.\<close>

definition install_except :: "string \<Rightarrow> bool \<Rightarrow> world \<Rightarrow> world" where
  "install_except e has_log_callback w =
     (let w1 = logger_error (''Failed to install Spore Mod Loader: '' @ e) w
      in if has_log_callback then emit (LogCallback (''Error: '' @ e)) w1 else w1)"

definition setup_complete :: "world \<Rightarrow> world" where
  "setup_complete w =
     log_progress ''Complete the installation, then return to NaK to create launch scripts.''
       (log_progress ''The ModAPI installer is now running.''
          (log_progress ''=== Setup Complete! ===''
             (log_progress '''' (send_progress_update 100 w))))"

text \<open>
  \<^verbatim>\<open>install\<close>. The two callbacks enter as the facts that they are set; the parameter
  \<^verbatim>\<open>install_dir\<close> is not read by the source.
\<close>

definition install :: "collab \<Rightarrow> string option \<Rightarrow> bool \<Rightarrow> bool \<Rightarrow> world \<Rightarrow> bool \<times> world" where
  "install c custom_name has_log_callback has_progress_callback w =
     (let w1 = send_progress_update 0
                 (log_progress ''=== Starting Spore Mod Loader Installation ==='' w);
          (spore_game, w2) = find_spore_game c (send_progress_update 5 w1)
      in case spore_game of
           None \<Rightarrow>
             (False, log_progress ''ERROR: Spore not found. Please install Spore first.'' w2)
         | Some g \<Rightarrow>
             (let spore_path = gpath g;
                  prefix_name =
                    (case custom_name of
                       None \<Rightarrow> ''spore_modloader''
                     | Some n \<Rightarrow> if n = [] then ''spore_modloader'' else n);
                  prefix_path = pjoin (pjoin (prefixes_dir c) prefix_name) ''pfx'';
                  w3 = (if exists (fs w2) prefix_path
                        then log_progress (''Using existing Wine prefix: '' @ str prefix_path) w2
                        else log_progress (''Created Wine prefix: '' @ str prefix_path)
                               (do_mkdir prefix_path w2));
                  w4 = send_progress_update 15 (send_progress_update 10 w3)
              in case ensure_dependencies c has_log_callback has_progress_callback prefix_path w4 of
                   (ReturnFalse, w5) \<Rightarrow> (False, w5)
                 | (Raised e, w5) \<Rightarrow> (False, install_except e has_log_callback w5)
                 | (Continue, w5) \<Rightarrow>
                     (let (registry_ok, w6) =
                            create_spore_registry c spore_path prefix_path
                              (send_progress_update 40 w5);
                          w7 = (if \<not> registry_ok
                                then log_progress ''WARNING: Failed to apply registry keys'' w6
                                else w6);
                          (installer_exe, w8) =
                            download_modapi_installer c (send_progress_update 50 w7)
                      in case installer_exe of
                           None \<Rightarrow> (False, log_progress ''ERROR: Failed to download installer'' w8)
                         | Some exe \<Rightarrow>
                             (let (launched, w9) =
                                    launch_installer_with_instructions c exe prefix_path
                                      spore_path (send_progress_update 60 w8)
                              in if \<not> launched
                                 then (False, log_progress ''ERROR: Installer failed'' w9)
                                 else (True, setup_complete w9)))))"

section \<open>Observations on a trace\<close>

text \<open>What a run added to the trace of the world it started in.\<close>

definition new_events :: "world \<Rightarrow> world \<Rightarrow> event list" where
  "new_events w w' = drop (length (trace w)) (trace w')"

fun is_dep_install :: "event \<Rightarrow> bool" where
  "is_dep_install (DepInstall deps wine server pfx cdata client) = True"
| "is_dep_install _ = False"

definition dep_calls :: "event list \<Rightarrow> nat" where
  "dep_calls tr = length (filter is_dep_install tr)"

fun spawn_env :: "event \<Rightarrow> (string \<rightharpoonup> string) option" where
  "spawn_env (Run argv env t) = Some env"
| "spawn_env (Popen argv env) = Some env"
| "spawn_env _ = None"

definition spawned_envs :: "event list \<Rightarrow> (string \<rightharpoonup> string) list" where
  "spawned_envs tr = List.map_filter spawn_env tr"

definition env_values :: "string \<Rightarrow> (string \<rightharpoonup> string) list \<Rightarrow> string option list" where
  "env_values k envs = map (\<lambda>env. env k) envs"





text \<open>The events after the first occurrence of \<open>e\<close>.\<close>

definition after :: "event \<Rightarrow> event list \<Rightarrow> event list" where
  "after e tr = dropWhile (\<lambda>x. x \<noteq> e) tr"

text \<open>A text mentions \<^verbatim>\<open>spore\<close>: a piece of it is that word up to the case of its letters.\<close>

abbreviation mentions_spore :: "string \<Rightarrow> bool" where
  "mentions_spore s \<equiv> \<exists>pre mid post. s = pre @ mid @ post \<and> lower mid = ''spore''"

section \<open>Sample inputs\<close>

definition sample_world :: world where
  "sample_world = \<lparr>fs = Map.empty, trace = []\<rparr>"

definition sample_games :: "game list" where
  "sample_games =
     [\<lparr>name = ''Portal 2'', gpath = ''/games/Portal 2'', platform = ''Steam''\<rparr>,
      \<lparr>name = ''SPORE: Galactic Adventures'', gpath = ''/games/SporeGA'', platform = ''Steam''\<rparr>,
      \<lparr>name = ''Spore'', gpath = ''/games/Spore'', platform = ''GOG''\<rparr>]"

definition sample_release :: release where
  "sample_release =
     \<lparr>tag_name = ''v1.5.0'',
      assets = [\<lparr>asset_name = ''Source.zip'', browser_download_url = ''https://example.org/s''\<rparr>,
                \<lparr>asset_name = ''ModAPI.InterimSetup.exe'',
                 browser_download_url = ''https://example.org/m''\<rparr>]\<rparr>"

definition sample_collab :: collab where
  "sample_collab =
     \<lparr>find_all_games = Returns sample_games,
      active_proton_path = Some [''opt'', ''GE-Proton'', ''proton''],
      environ = [''HOME'' \<mapsto> ''/home/user'', ''LD_LIBRARY_PATH'' \<mapsto> ''/opt/host/lib''],
      temp_name = [''tmp'', ''tmpk3x9.reg''],
      regedit_run = Completed 0 [],
      popen_start = Started,
      steam_root = SteamRoot ''/home/user/.steam/steam'',
      install_dependencies = Returns \<lparr>success = True, error = []\<rparr>,
      latest_release = Returns (Some sample_release),
      download_file = Returns (Some ''/home/user/.cache/ModAPI.InterimSetup.exe''),
      prefixes_dir = [''home'', ''user'', ''NaK'', ''Prefixes'']\<rparr>"

definition sample_prefix :: path where
  "sample_prefix = [''home'', ''user'', ''NaK'', ''Prefixes'', ''spore_modloader'', ''pfx'']"

definition launcher_exe :: node where
  "launcher_exe = File ''MZ'' 420"

text \<open>A sandbox in which the guest installer was run twice, into both program-files
  directories.\<close>

definition both_program_files :: world where
  "both_program_files =
     \<lparr>fs = [alt_path1 sample_prefix @ [''Spore ModAPI Launcher.exe''] \<mapsto> launcher_exe,
            alt_path2 sample_prefix @ [''Spore ModAPI Launcher.exe''] \<mapsto> launcher_exe],
      trace = []\<rparr>"


section \<open>Facts about the string functions\<close>

lemma replace_scan_char:
  "replace_scan [c] new 0 s = concat (map (\<lambda>x. if x = c then new else [x]) s)"
  by (induction s) auto

lemma py_replace_char:
  "py_replace [c] new s = concat (map (\<lambda>x. if x = c then new else [x]) s)"
  by (simp add: py_replace_def replace_scan_char)

lemma set_py_replace_char: "set (py_replace [c] new s) \<subseteq> (set s - {c}) \<union> set new"
  by (auto simp: py_replace_char split: if_splits)

lemma py_in_iff: "py_in sub s \<longleftrightarrow> (\<exists>pre post. s = pre @ sub @ post)"
proof (induction s)
  case Nil
  then show ?case by auto
next
  case (Cons c cs)
  show ?case
  proof
    assume "py_in sub (c # cs)"
    then consider "prefix sub (c # cs)" | "py_in sub cs" by auto
    then show "\<exists>pre post. c # cs = pre @ sub @ post"
    proof cases
      case 1
      then obtain post where "c # cs = sub @ post" by (auto simp: prefix_def)
      then have "c # cs = [] @ sub @ post" by simp
      then show ?thesis by blast
    next
      case 2
      with Cons obtain pre post where "cs = pre @ sub @ post" by auto
      then have "c # cs = (c # pre) @ sub @ post" by simp
      then show ?thesis by blast
    qed
  next
    assume "\<exists>pre post. c # cs = pre @ sub @ post"
    then obtain pre post where eq: "c # cs = pre @ sub @ post" by auto
    show "py_in sub (c # cs)"
    proof (cases pre)
      case Nil
      with eq have "prefix sub (c # cs)" by (simp add: prefix_def)
      then show ?thesis by simp
    next
      case (Cons a pre')
      with eq have "cs = pre' @ sub @ post" by simp
      with Cons.IH have "py_in sub cs" by blast
      then show ?thesis by simp
    qed
  qed
qed

lemma count_occ_absent: "x \<in> set tok \<Longrightarrow> x \<notin> set s \<Longrightarrow> count_occ tok s = 0"
proof (induction s)
  case Nil
  then show ?case by simp
next
  case (Cons c cs)
  have "\<not> prefix tok (c # cs)"
  proof
    assume "prefix tok (c # cs)"
    then have "set tok \<subseteq> set (c # cs)" by (rule set_mono_prefix)
    with Cons.prems show False by auto
  qed
  with Cons show ?case by simp
qed

lemma prefix_past_sep:
  assumes "c \<notin> set tok"
  shows "prefix tok (u @ c # v) \<longleftrightarrow> prefix tok u"
proof
  assume "prefix tok (u @ c # v)"
  then consider "prefix tok u" | t where "tok = u @ t" "prefix t (c # v)"
    by (auto simp: prefix_append)
  then show "prefix tok u"
  proof cases
    case 1
    then show ?thesis .
  next
    case 2
    with assms have "t = []" by (cases t) auto
    with 2 show ?thesis by simp
  qed
next
  assume "prefix tok u"
  then show "prefix tok (u @ c # v)" by (rule prefix_prefix)
qed

lemma count_occ_sep:
  assumes "c \<notin> set tok" "tok \<noteq> []"
  shows "count_occ tok (a @ c # b) = count_occ tok a + count_occ tok b"
proof (induction a)
  case Nil
  from assms have "\<not> prefix tok (c # b)" by (cases tok) auto
  then show ?case by simp
next
  case (Cons x a)
  have "prefix tok ((x # a) @ c # b) \<longleftrightarrow> prefix tok (x # a)"
    using assms(1) by (rule prefix_past_sep)
  with Cons show ?case by simp
qed

lemma count_occ_lines:
  assumes "c \<notin> set tok" "tok \<noteq> []"
  shows "count_occ tok (concat (map (\<lambda>l. l @ [c]) ls)) = sum_list (map (count_occ tok) ls)"
proof (induction ls)
  case Nil
  then show ?case by simp
next
  case (Cons l ls)
  have "count_occ tok (l @ c # concat (map (\<lambda>l. l @ [c]) ls))
        = count_occ tok l + count_occ tok (concat (map (\<lambda>l. l @ [c]) ls))"
    using assms by (rule count_occ_sep)
  with Cons show ?case by simp
qed

lemma split_on_line: "c \<notin> set l \<Longrightarrow> split_on c (l @ c # r) = l # split_on c r"
  by (induction l) auto

lemma split_on_lines:
  "\<forall>l \<in> set ls. c \<notin> set l \<Longrightarrow> split_on c (concat (map (\<lambda>l. l @ [c]) ls)) = ls @ [[]]"
  by (induction ls) (simp_all add: split_on_line)

lemma split_on_absent: "c \<notin> set s \<Longrightarrow> split_on c s = [s]"
  by (induction s) auto

section \<open>Path translator: what the two functions return\<close>

lemma display_path_absolute:
  "convert_to_wine_path_display (CHR ''/'' # rest) =
     ''Z:'' @ [bs, bs] @ py_replace ''/'' [bs] rest"
  by (simp add: convert_to_wine_path_display_def py_replace_def)

lemma display_path_doubled:
  "py_in [bs, bs] (convert_to_wine_path_display (CHR ''/'' # rest))"
  unfolding py_in_iff display_path_absolute
  by (rule exI [of _ "''Z:''"], rule exI [of _ "py_replace ''/'' [bs] rest"]) simp

text \<open>
  C8. The display form of a host path is to hold single backslashes only. For the
  absolute path \<^verbatim>\<open>/home/user/Spore\<close> the function returns \<^verbatim>\<open>Z:\\home\user\Spore\<close>: the
  backslash of the drive prefix and the one that replaces the leading slash stand side by
  side, so the result holds a doubled backslash.
\<close>

theorem display_path_has_doubled_backslash:
  "convert_to_wine_path_display ''/home/user/Spore'' =
     ''Z:'' @ [bs, bs] @ ''home'' @ [bs] @ ''user'' @ [bs] @ ''Spore''
   \<and> py_in [bs, bs] (convert_to_wine_path_display ''/home/user/Spore'')"
  by (simp add: convert_to_wine_path_display_def py_replace_def)

section \<open>Registry document: headers and placeholder\<close>

text \<open>
  Replacing one character by a non-empty text that shares no character with a token
  neither makes nor breaks an occurrence of the token.
\<close>

lemma prefix_replace_char:
  assumes "c \<notin> set tok" and "set new \<inter> set tok = {}" and "new \<noteq> []"
  shows "prefix tok (concat (map (\<lambda>x. if x = c then new else [x]) s)) \<longleftrightarrow> prefix tok s"
  using assms
proof (induction s arbitrary: tok)
  case Nil
  then show ?case by simp
next
  case (Cons x xs)
  show ?case
  proof (cases tok)
    case Nil
    then show ?thesis by simp
  next
    case tok: (Cons t ts)
    from Cons.prems tok have ts: "c \<notin> set ts" "set new \<inter> set ts = {}" and t: "t \<noteq> c" "t \<notin> set new"
      by auto
    show ?thesis
    proof (cases "x = c")
      case True
      from \<open>new \<noteq> []\<close> obtain n ns where new: "new = n # ns" by (cases new) auto
      with t have "t \<noteq> n" by auto
      with True tok new t show ?thesis by simp
    next
      case False
      with tok Cons.IH [OF ts \<open>new \<noteq> []\<close>] show ?thesis by simp
    qed
  qed
qed

lemma count_occ_skip:
  assumes "set new \<inter> set tok = {}" and "tok \<noteq> []"
  shows "count_occ tok (new @ r) = count_occ tok r"
  using assms(1)
proof (induction new)
  case Nil
  then show ?case by simp
next
  case (Cons n ns)
  from Cons.prems assms(2) have "\<not> prefix tok (n # ns @ r)" by (cases tok) auto
  with Cons show ?case by simp
qed

lemma count_occ_replace_char:
  assumes "c \<notin> set tok" and "set new \<inter> set tok = {}" and "new \<noteq> []" and "tok \<noteq> []"
  shows "count_occ tok (concat (map (\<lambda>x. if x = c then new else [x]) s)) = count_occ tok s"
proof (induction s)
  case Nil
  then show ?case by simp
next
  case (Cons x xs)
  show ?case
  proof (cases "x = c")
    case True
    from assms(1,4) have "\<not> prefix tok (c # xs)" by (cases tok) auto
    with True Cons count_occ_skip [OF assms(2,4)] show ?thesis by simp
  next
    case False
    from prefix_replace_char [OF assms(1-3), of "x # xs"] False
    have "prefix tok (x # concat (map (\<lambda>x. if x = c then new else [x]) xs))
          \<longleftrightarrow> prefix tok (x # xs)"
      by simp
    with False Cons show ?thesis by simp
  qed
qed

lemma count_occ_py_replace:
  assumes "c \<notin> set tok" and "set new \<inter> set tok = {}" and "new \<noteq> []" and "tok \<noteq> []"
  shows "count_occ tok (py_replace [c] new s) = count_occ tok s"
  unfolding py_replace_char using assms by (rule count_occ_replace_char)

lemma count_occ_zero_iff: "tok \<noteq> [] \<Longrightarrow> count_occ tok s = 0 \<longleftrightarrow> \<not> py_in tok s"
  by (induction s) auto

text \<open>
  A token of two characters, the first of them the line break: it occurs inside a line, or
  across the end of a line when the next line opens with its second character.
\<close>

lemma count_occ_pair_line:
  assumes "b \<noteq> c"
  shows "count_occ [c, b] (l @ c # r) =
     count_occ [c, b] l + (if prefix [b] r then 1 else 0) + count_occ [c, b] r"
proof (induction l)
  case Nil
  then show ?case by simp
next
  case (Cons x l)
  from assms have "prefix [b] (l @ c # r) \<longleftrightarrow> prefix [b] l" by (cases l) auto
  with Cons show ?case by simp
qed

lemma split_on_first:
  assumes "b \<noteq> c" and "split_on c s = l # ls"
  shows "prefix [b] l \<longleftrightarrow> prefix [b] s"
proof (cases s)
  case Nil
  with assms show ?thesis by simp
next
  case (Cons x xs)
  with assms show ?thesis by (cases "split_on c xs") (auto split: if_splits)
qed

lemma split_on_not_Nil: "split_on c s \<noteq> []"
  by (cases s) (auto split: list.splits)

lemma opening_lines:
  assumes "b \<noteq> c"
  shows "length (filter (prefix [b]) (split_on c s)) =
     (if prefix [b] s then 1 else 0) + count_occ [c, b] s"
proof (induction s)
  case Nil
  then show ?case by simp
next
  case (Cons x xs)
  obtain l ls where split: "split_on c xs = l # ls"
    using split_on_not_Nil [of c xs] by (cases "split_on c xs") auto
  have first: "prefix [b] l \<longleftrightarrow> prefix [b] xs"
    using assms split by (rule split_on_first)
  show ?case
  proof (cases "x = c")
    case True
    with assms Cons show ?thesis by simp
  next
    case False
    from Cons split first
    have "length (filter (prefix [b]) ls) = count_occ [c, b] xs"
      by (simp split: if_splits)
    with False split show ?thesis by auto
  qed
qed

lemma opening_lines_of_lines:
  assumes "b \<noteq> c"
  shows "length (filter (prefix [b]) (split_on c (concat (map (\<lambda>l. l @ [c]) ls)))) =
     length (filter (prefix [b]) ls) + sum_list (map (count_occ [c, b]) ls)"
proof -
  have "(if prefix [b] (concat (map (\<lambda>l. l @ [c]) ls)) then 1 else 0)
        + count_occ [c, b] (concat (map (\<lambda>l. l @ [c]) ls))
        = length (filter (prefix [b]) ls) + sum_list (map (count_occ [c, b]) ls)"
  proof (induction ls)
    case Nil
    then show ?case by simp
  next
    case (Cons l ls)
    let ?r = "concat (map (\<lambda>l. l @ [c]) ls)"
    have pair: "count_occ [c, b] (l @ c # ?r) =
        count_occ [c, b] l + (if prefix [b] ?r then 1 else 0) + count_occ [c, b] ?r"
      using assms by (rule count_occ_pair_line)
    from assms have "prefix [b] (l @ c # ?r) \<longleftrightarrow> prefix [b] l" by (cases l) auto
    with pair Cons show ?case by simp
  qed
  with opening_lines [OF assms, of "concat (map (\<lambda>l. l @ [c]) ls)"] show ?thesis by simp
qed

text \<open>The lines of the document: the headers among them, and the tokens they hold.\<close>

lemma reg_lines_headers:
  "filter (\<lambda>l. prefix ''['' l) (reg_lines p) =
     [hklm_ea @ ''spore]'',
      hklm_ea @ ''ea games'' @ [bs] @ ''spore(tm)'' @ [bs] @ ''ergc]'',
      hklm_ea @ ''SPORE Creepy and Cute Parts Pack]'',
      hklm_ea @ ''SPORE_EP1]'']"
  by (simp add: reg_lines_def Let_def hklm_ea_def)

lemma count_registry_path:
  assumes "bs \<notin> set tok" and "CHR ''/'' \<notin> set tok" and "tok \<noteq> []"
  shows "count_occ tok (pre @ convert_to_wine_path_registry p @ bs # bs # r) =
     count_occ tok (pre @ ''Z:'') + count_occ tok p + count_occ tok r"
proof -
  have sep: "\<And>a b. count_occ tok (a @ bs # b) = count_occ tok a + count_occ tok b"
    using assms(1,3) by (rule count_occ_sep)
  have empty: "count_occ tok [] = 0" by simp
  have eq: "pre @ convert_to_wine_path_registry p @ bs # bs # r =
      (pre @ ''Z:'') @ bs # [] @ bs # py_replace ''/'' [bs, bs] p @ bs # [] @ bs # r"
    by (simp add: convert_to_wine_path_registry_def)
  have "count_occ tok (pre @ convert_to_wine_path_registry p @ bs # bs # r) =
      count_occ tok (pre @ ''Z:'') + count_occ tok (py_replace ''/'' [bs, bs] p) + count_occ tok r"
    unfolding eq by (simp only: sep empty)
  moreover have "count_occ tok (py_replace ''/'' [bs, bs] p) = count_occ tok p"
    using assms by (intro count_occ_py_replace) auto
  ultimately show ?thesis by simp
qed

lemma count_reg_lines:
  assumes "bs \<notin> set tok" and "CHR ''/'' \<notin> set tok" and "tok \<noteq> []"
  shows "sum_list (map (count_occ tok) (reg_lines p)) =
     sum_list (map (count_occ tok) (reg_lines [])) + 3 * count_occ tok p"
proof -
  note path = count_registry_path [OF assms]
  have a: "count_occ tok (''\"datadir\"=\"'' @ (convert_to_wine_path_registry q @ [bs, bs] @ ''Data'') @ ''\"'')
      = count_occ tok (''\"datadir\"=\"'' @ ''Z:'') + count_occ tok q + count_occ tok ''Data\"''" for q
    using path [of "''\"datadir\"=\"''" q "''Data\"''"] by simp
  have b: "count_occ tok (''\"datadir\"=\"'' @ (convert_to_wine_path_registry q @ [bs, bs] @ ''bp1content'') @ [bs, bs] @ ''\"'')
      = count_occ tok (''\"datadir\"=\"'' @ ''Z:'') + count_occ tok q
        + count_occ tok (''bp1content'' @ [bs, bs] @ ''\"'')" for q
    using path [of "''\"datadir\"=\"''" q "''bp1content'' @ [bs, bs] @ ''\"''"] by simp
  have c: "count_occ tok (''\"datadir\"=\"'' @ (convert_to_wine_path_registry q @ [bs, bs] @ ''DataEP1'') @ [bs, bs] @ ''\"'')
      = count_occ tok (''\"datadir\"=\"'' @ ''Z:'') + count_occ tok q
        + count_occ tok (''DataEP1'' @ [bs, bs] @ ''\"'')" for q
    using path [of "''\"datadir\"=\"''" q "''DataEP1'' @ [bs, bs] @ ''\"''"] by simp
  have empty: "count_occ tok [] = 0" by simp
  show ?thesis
    unfolding reg_lines_def Let_def list.map sum_list.Cons sum_list.Nil a b c empty
    by (simp del: count_occ.simps)
qed

lemma count_cdkey_reg_content:
  "count_occ cdkey (reg_content p) = 2 + 3 * count_occ cdkey p"
proof -
  have "count_occ cdkey (reg_content p) = sum_list (map (count_occ cdkey) (reg_lines p))"
    unfolding reg_content_def by (rule count_occ_lines) (simp_all add: cdkey_def)
  also have "\<dots> = sum_list (map (count_occ cdkey) (reg_lines [])) + 3 * count_occ cdkey p"
    by (rule count_reg_lines) (simp_all add: cdkey_def)
  also have "sum_list (map (count_occ cdkey) (reg_lines [])) = 2"
    by (simp add: reg_lines_def Let_def convert_to_wine_path_registry_def py_replace_def
        hklm_ea_def cdkey_def)
  finally show ?thesis by simp
qed

lemma key_headers_reg_content:
  "length (key_headers (reg_content p)) = 4 + 3 * count_occ [nl, CHR ''[''] p"
proof -
  have "length (key_headers (reg_content p)) =
      length (filter (prefix ''['') (reg_lines p))
      + sum_list (map (count_occ [nl, CHR ''['']) (reg_lines p))"
    unfolding key_headers_def reg_content_def by (rule opening_lines_of_lines) simp
  moreover have "length (filter (prefix ''['') (reg_lines p)) = 4"
    by (simp add: reg_lines_headers)
  moreover have "sum_list (map (count_occ [nl, CHR ''['']) (reg_lines p)) =
      sum_list (map (count_occ [nl, CHR ''['']) (reg_lines [])) + 3 * count_occ [nl, CHR ''[''] p"
    by (rule count_reg_lines) simp_all
  moreover have "sum_list (map (count_occ [nl, CHR ''['']) (reg_lines [])) = 0"
    by (simp add: reg_lines_def Let_def convert_to_wine_path_registry_def py_replace_def
        hklm_ea_def)
  ultimately show ?thesis by simp
qed

text \<open>
  C1, as the source has it. The template of the registry document holds four key-block
  headers and the placeholder \<^verbatim>\<open>%CDKEY%\<close> twice (as the default value of the \<^verbatim>\<open>ergc\<close> key
  and as the \<^verbatim>\<open>ProductKey\<close> of \<^verbatim>\<open>SPORE_EP1\<close>), and the install path is written into it
  three times. So the document holds four headers and three more for every line break of
  the path that an opening bracket follows, and two placeholders and three more for every
  placeholder in the path. It holds exactly four headers if and only if no line break of
  the path is followed by an opening bracket, and exactly two placeholders if and only if
  the path does not hold the placeholder.
\<close>

theorem reg_content_headers_and_placeholders:
  "length (key_headers (reg_content spore_path)) = 4 + 3 * count_occ [nl, CHR ''[''] spore_path
   \<and> count_occ cdkey (reg_content spore_path) = 2 + 3 * count_occ cdkey spore_path
   \<and> (length (key_headers (reg_content spore_path)) = 4
        \<longleftrightarrow> \<not> py_in [nl, CHR ''[''] spore_path)
   \<and> (count_occ cdkey (reg_content spore_path) = 2 \<longleftrightarrow> \<not> py_in cdkey spore_path)"
proof -
  have h: "count_occ [nl, CHR ''[''] spore_path = 0 \<longleftrightarrow> \<not> py_in [nl, CHR ''[''] spore_path"
    by (rule count_occ_zero_iff) simp
  have k: "count_occ cdkey spore_path = 0 \<longleftrightarrow> \<not> py_in cdkey spore_path"
    by (rule count_occ_zero_iff) (simp add: cdkey_def)
  show ?thesis
    unfolding key_headers_reg_content count_cdkey_reg_content
    using h k by simp
qed

text \<open>
  C1, as the specification states it (four headers and exactly one placeholder, for every
  path), fails for an ordinary install path: the document for \<^verbatim>\<open>/games/Spore\<close> holds the
  placeholder twice. The two side conditions are needed: the document for
  \<^verbatim>\<open>/games/%CDKEY%\<close> holds the placeholder five times, and the document for a path with a
  line break before an opening bracket holds seven headers.
\<close>

theorem reg_content_one_placeholder_counterexample:
  "\<not> (length (key_headers (reg_content ''/games/Spore'')) = 4
      \<and> count_occ cdkey (reg_content ''/games/Spore'') = 1)
   \<and> count_occ cdkey (reg_content ''/games/Spore'') = 2
   \<and> count_occ cdkey (reg_content ''/games/%CDKEY%'') = 5
   \<and> length (key_headers (reg_content (''/games'' @ [nl] @ ''[Spore]''))) = 7"
  unfolding key_headers_reg_content count_cdkey_reg_content
  by (simp add: cdkey_def)

text \<open>
  A percent sign or a line break alone in the path does no harm: the documents for
  \<^verbatim>\<open>/games/100%/Spore\<close> and for a path with a line break before a letter hold four headers
  and two placeholders.
\<close>

lemma reg_content_tolerated_paths:
  "length (key_headers (reg_content ''/games/100%/Spore'')) = 4
   \<and> count_occ cdkey (reg_content ''/games/100%/Spore'') = 2
   \<and> length (key_headers (reg_content (''/games'' @ [nl] @ ''Spore''))) = 4
   \<and> count_occ cdkey (reg_content (''/games'' @ [nl] @ ''Spore'')) = 2"
  unfolding key_headers_reg_content count_cdkey_reg_content
  by (simp add: cdkey_def)

section \<open>Game locator step: first match, by lowered substring\<close>

lemma lower_append: "lower (a @ b) = lower a @ lower b"
  by (simp add: lower_def)

lemma py_in_map_iff:
  "py_in sub (map f s) \<longleftrightarrow> (\<exists>pre mid post. s = pre @ mid @ post \<and> map f mid = sub)"
proof
  assume "py_in sub (map f s)"
  then have "\<exists>a b. map f s = a @ (sub @ b)"
    by (simp only: py_in_iff)
  then obtain a b where ab: "map f s = a @ (sub @ b)"
    by (elim exE)
  from ab have "\<exists>us vs. s = us @ vs \<and> a = map f us \<and> sub @ b = map f vs"
    by (simp only: map_eq_append_conv)
  then obtain pre r where s: "s = pre @ r" and r: "sub @ b = map f r"
    by (elim exE conjE)
  from r have "\<exists>us vs. r = us @ vs \<and> sub = map f us \<and> b = map f vs"
    by (simp only: append_eq_map_conv)
  then obtain mid post where m: "r = mid @ post" and m2: "sub = map f mid"
    by (elim exE conjE)
  from s m m2 have "s = pre @ mid @ post \<and> map f mid = sub" by simp
  then show "\<exists>pre mid post. s = pre @ mid @ post \<and> map f mid = sub"
    by (intro exI)
next
  assume "\<exists>pre mid post. s = pre @ mid @ post \<and> map f mid = sub"
  then obtain pre mid post where "s = pre @ mid @ post" and "map f mid = sub"
    by (elim exE conjE)
  then have "map f s = map f pre @ sub @ map f post" by simp
  then have "\<exists>pre post. map f s = pre @ sub @ post" by (intro exI)
  then show "py_in sub (map f s)"
    by (simp only: py_in_iff)
qed

lemma spore_in_lower_iff:
  "py_in ''spore'' (lower s) \<longleftrightarrow> (\<exists>pre mid post. s = pre @ mid @ post \<and> lower mid = ''spore'')"
  unfolding lower_def by (rule py_in_map_iff)
lemma first_spore_Some:
  "first_spore gs = Some g \<longleftrightarrow>
     (\<exists>before rest. gs = before @ g # rest \<and> py_in ''spore'' (lower (name g))
        \<and> (\<forall>h \<in> set before. \<not> py_in ''spore'' (lower (name h))))"
proof (induction gs)
  case Nil
  then show ?case by simp
next
  case (Cons x gs)
  show ?case
  proof (cases "py_in ''spore'' (lower (name x))")
    case True
    have "(\<exists>before rest. x # gs = before @ g # rest \<and> py_in ''spore'' (lower (name g))
            \<and> (\<forall>h \<in> set before. \<not> py_in ''spore'' (lower (name h)))) \<longleftrightarrow> x = g"
    proof
      assume "\<exists>before rest. x # gs = before @ g # rest \<and> py_in ''spore'' (lower (name g))
            \<and> (\<forall>h \<in> set before. \<not> py_in ''spore'' (lower (name h)))"
      then obtain before rest where eq: "x # gs = before @ g # rest"
        and no: "\<forall>h \<in> set before. \<not> py_in ''spore'' (lower (name h))" by blast
      show "x = g"
      proof (cases before)
        case Nil
        with eq show ?thesis by simp
      next
        case (Cons b bs)
        with eq have "b = x" by simp
        with Cons no True show ?thesis by simp
      qed
    next
      assume "x = g"
      with True have "x # gs = [] @ g # gs \<and> py_in ''spore'' (lower (name g))
            \<and> (\<forall>h \<in> set []. \<not> py_in ''spore'' (lower (name h)))" by simp
      then show "\<exists>before rest. x # gs = before @ g # rest \<and> py_in ''spore'' (lower (name g))
            \<and> (\<forall>h \<in> set before. \<not> py_in ''spore'' (lower (name h)))" by blast
    qed
    with True show ?thesis by simp
  next
    case False
    have "(\<exists>before rest. x # gs = before @ g # rest \<and> py_in ''spore'' (lower (name g))
            \<and> (\<forall>h \<in> set before. \<not> py_in ''spore'' (lower (name h)))) \<longleftrightarrow>
          (\<exists>before rest. gs = before @ g # rest \<and> py_in ''spore'' (lower (name g))
            \<and> (\<forall>h \<in> set before. \<not> py_in ''spore'' (lower (name h))))"
    proof
      assume "\<exists>before rest. x # gs = before @ g # rest \<and> py_in ''spore'' (lower (name g))
            \<and> (\<forall>h \<in> set before. \<not> py_in ''spore'' (lower (name h)))"
      then obtain before rest where eq: "x # gs = before @ g # rest"
        and g: "py_in ''spore'' (lower (name g))"
        and no: "\<forall>h \<in> set before. \<not> py_in ''spore'' (lower (name h))" by blast
      show "\<exists>before rest. gs = before @ g # rest \<and> py_in ''spore'' (lower (name g))
            \<and> (\<forall>h \<in> set before. \<not> py_in ''spore'' (lower (name h)))"
      proof (cases before)
        case Nil
        with eq have "x = g" by simp
        with False g show ?thesis by simp
      next
        case (Cons b bs)
        with eq have "gs = bs @ g # rest" by simp
        moreover from Cons no have "\<forall>h \<in> set bs. \<not> py_in ''spore'' (lower (name h))" by simp
        ultimately show ?thesis using g by blast
      qed
    next
      assume "\<exists>before rest. gs = before @ g # rest \<and> py_in ''spore'' (lower (name g))
            \<and> (\<forall>h \<in> set before. \<not> py_in ''spore'' (lower (name h)))"
      then obtain before rest where eq: "gs = before @ g # rest"
        and g: "py_in ''spore'' (lower (name g))"
        and no: "\<forall>h \<in> set before. \<not> py_in ''spore'' (lower (name h))" by blast
      from eq have "x # gs = (x # before) @ g # rest" by simp
      moreover from no False have "\<forall>h \<in> set (x # before). \<not> py_in ''spore'' (lower (name h))"
        by simp
      ultimately show "\<exists>before rest. x # gs = before @ g # rest
            \<and> py_in ''spore'' (lower (name g))
            \<and> (\<forall>h \<in> set before. \<not> py_in ''spore'' (lower (name h)))"
        using g by blast
    qed
    with False Cons.IH show ?thesis by simp
  qed
qed

lemma first_spore_None:
  "first_spore gs = None \<longleftrightarrow> (\<forall>h \<in> set gs. \<not> py_in ''spore'' (lower (name h)))"
  by (induction gs) auto

lemma fst_find_spore_game:
  "fst (find_spore_game c w) =
     (case find_all_games c of Raises e \<Rightarrow> None | Returns all_games \<Rightarrow> first_spore all_games)"
  by (simp add: find_spore_game_def Let_def split: outcome.splits option.splits)

text \<open>
  C10. \<^verbatim>\<open>find_spore_game\<close> returns the first game, in the order of the finder, whose name
  holds \<^verbatim>\<open>spore\<close> in some letter case as a piece of it (not the whole name); it returns
  no game when no name does, and when the finder raises.
\<close>

theorem find_spore_game_first_match:
  "(find_all_games c = Raises e \<longrightarrow> fst (find_spore_game c w) = None)
   \<and> (find_all_games c = Returns games \<longrightarrow>
        (fst (find_spore_game c w) = Some g \<longleftrightarrow>
           (\<exists>before rest. games = before @ g # rest \<and> mentions_spore (name g)
              \<and> (\<forall>h \<in> set before. \<not> mentions_spore (name h))))
        \<and> (fst (find_spore_game c w) = None \<longleftrightarrow>
             (\<forall>h \<in> set games. \<not> mentions_spore (name h))))"
  unfolding spore_in_lower_iff [symmetric]
  by (simp add: fst_find_spore_game first_spore_Some first_spore_None)
theorem find_spore_game_first_match_witness:
  "fst (find_spore_game sample_collab sample_world) =
       Some \<lparr>name = ''SPORE: Galactic Adventures'', gpath = ''/games/SporeGA'',
             platform = ''Steam''\<rparr>
   \<and> fst (find_spore_game (sample_collab\<lparr>find_all_games := Raises ''no library''\<rparr>)
           sample_world) = None"
proof -
  let ?p = "\<lparr>name = ''Portal 2'', gpath = ''/games/Portal 2'', platform = ''Steam''\<rparr>"
  let ?g = "\<lparr>name = ''SPORE: Galactic Adventures'', gpath = ''/games/SporeGA'',
             platform = ''Steam''\<rparr>"
  let ?s = "\<lparr>name = ''Spore'', gpath = ''/games/Spore'', platform = ''GOG''\<rparr>"
  have games: "find_all_games sample_collab = Returns sample_games"
    by (simp add: sample_collab_def)
  have raises: "find_all_games (sample_collab\<lparr>find_all_games := Raises ''no library''\<rparr>)
      = Raises ''no library''"
    by simp
  have "py_in ''spore'' (lower ''SPORE: Galactic Adventures'')"
    by code_simp
  then have yes: "mentions_spore (name ?g)"
    by (simp only: spore_in_lower_iff game.simps)
  have "\<not> py_in ''spore'' (lower ''Portal 2'')"
    by code_simp
  then have no: "\<forall>h \<in> set [?p]. \<not> mentions_spore (name h)"
    by (simp only: spore_in_lower_iff game.simps list.set ball_simps simp_thms)
  have "sample_games = [?p] @ ?g # [?s]"
    by (simp add: sample_games_def)
  with yes no have "sample_games = [?p] @ ?g # [?s] \<and> mentions_spore (name ?g)
      \<and> (\<forall>h \<in> set [?p]. \<not> mentions_spore (name h))"
    by (intro conjI)
  then have ex: "\<exists>before rest. sample_games = before @ ?g # rest \<and> mentions_spore (name ?g)
      \<and> (\<forall>h \<in> set before. \<not> mentions_spore (name h))"
    by (intro exI)
  have a: "fst (find_spore_game sample_collab sample_world) = Some ?g"
    using find_spore_game_first_match
        [of sample_collab "''x''" sample_world sample_games ?g,
          THEN conjunct2, THEN mp, OF games, THEN conjunct1, THEN iffD2, OF ex] .
  have b: "fst (find_spore_game (sample_collab\<lparr>find_all_games := Raises ''no library''\<rparr>)
           sample_world) = None"
    using find_spore_game_first_match
        [of "sample_collab\<lparr>find_all_games := Raises ''no library''\<rparr>" "''no library''"
          sample_world "[]" ?g, THEN conjunct1, THEN mp, OF raises] .
  from a b show ?thesis by (intro conjI)
qed
section \<open>Sandbox locator: the order of the candidates\<close>

lemma pjoin_name:
  "CHR ''/'' \<notin> set s \<Longrightarrow> s \<noteq> [] \<Longrightarrow> s \<noteq> ''.'' \<Longrightarrow> pjoin p s = p @ [s]"
  by (cases s) (auto simp: pjoin_def path_of_def split_on_absent)

lemma candidate_paths:
  "default_path p = p @ [''drive_c'', ''ProgramData'', ''SPORE ModAPI Launcher Kit'']"
  "alt_path1 p = p @ [''drive_c'', ''Program Files (x86)'', ''Spore ModAPI Launcher Kit'']"
  "alt_path2 p = p @ [''drive_c'', ''Program Files'', ''Spore ModAPI Launcher Kit'']"
  by (simp_all add: default_path_def alt_path1_def alt_path2_def pjoin_name)

text \<open>
  C4, as the source has it. \<^verbatim>\<open>find_modapi_installation\<close> probes three fixed directories
  below the sandbox for the launcher executable, in this order: the shared program data
  directory, then \<^verbatim>\<open>Program Files (x86)\<close> (the 32-bit-style directory), then
  \<^verbatim>\<open>Program Files\<close> (the 64-bit-style one). It returns the first that holds the
  executable, no directory when none does, and changes no file.
\<close>

theorem find_modapi_installation_order:
  "fst (find_modapi_installation prefix_path w) =
     find (\<lambda>d. exists (fs w) (d @ [''Spore ModAPI Launcher.exe'']))
       [prefix_path @ [''drive_c'', ''ProgramData'', ''SPORE ModAPI Launcher Kit''],
        prefix_path @ [''drive_c'', ''Program Files (x86)'', ''Spore ModAPI Launcher Kit''],
        prefix_path @ [''drive_c'', ''Program Files'', ''Spore ModAPI Launcher Kit'']]
   \<and> fs (snd (find_modapi_installation prefix_path w)) = fs w"
  by (simp add: find_modapi_installation_def Let_def candidate_paths pjoin_name
      log_progress_def emit_def)

text \<open>
  C4, as the specification states it (the 64-bit-style directory before the 32-bit-style
  one), fails where both hold the launcher: \<^verbatim>\<open>Program Files\<close> holds it, and the
  function returns \<^verbatim>\<open>Program Files (x86)\<close>.
\<close>

theorem find_modapi_installation_order_counterexample:
  "exists (fs both_program_files)
     (sample_prefix @ [''drive_c'', ''Program Files'', ''Spore ModAPI Launcher Kit'',
        ''Spore ModAPI Launcher.exe''])
   \<and> fst (find_modapi_installation sample_prefix both_program_files) =
       Some (sample_prefix @ [''drive_c'', ''Program Files (x86)'', ''Spore ModAPI Launcher Kit''])"
  by (simp add: find_modapi_installation_def Let_def candidate_paths pjoin_name
      log_progress_def emit_def both_program_files_def exists_def sample_prefix_def)

section \<open>Process launcher: the environment of the spawned processes\<close>

lemma spawned_envs_simps:
  "spawned_envs [] = []"
  "spawned_envs (Run argv env t # tr) = env # spawned_envs tr"
  "spawned_envs (Popen argv env # tr) = env # spawned_envs tr"
  "spawned_envs (Log m # tr) = spawned_envs tr"
  "spawned_envs (LogError m # tr) = spawned_envs tr"
  "spawned_envs (FsWrite p # tr) = spawned_envs tr"
  "spawned_envs (FsUnlink p # tr) = spawned_envs tr"
  by (simp_all add: spawned_envs_def List.map_filter_simps)

lemma create_spore_registry_envs:
  "spawned_envs (new_events w (snd (create_spore_registry c spore_path prefix_path w))) =
     (case active_proton_path c of
        None \<Rightarrow> []
      | Some proton_path \<Rightarrow>
          [(environ c)(''WINEPREFIX'' \<mapsto> str prefix_path,
                       ''LD_LIBRARY_PATH'' \<mapsto> ld_library_path)])"
  by (cases "active_proton_path c"; cases "regedit_run c")
    (simp_all add: create_spore_registry_def Let_def create_temp_def do_unlink_def
      log_progress_def logger_error_def emit_def new_events_def spawned_envs_simps)

lemma launch_installer_envs:
  "spawned_envs (new_events w
       (snd (launch_installer_with_instructions c installer_exe prefix_path spore_path w))) =
     (case active_proton_path c of
        None \<Rightarrow> []
      | Some proton_path \<Rightarrow>
          [(environ c)(''WINEPREFIX'' \<mapsto> str prefix_path,
                       ''LD_LIBRARY_PATH'' \<mapsto> ld_library_path)])"
  by (cases "active_proton_path c"; cases "popen_start c")
    (simp_all add: launch_installer_with_instructions_def Let_def
      log_progress_def logger_error_def emit_def new_events_def spawned_envs_simps)

text \<open>
  C6, as the source has it. The registry import and the installer launch each spawn at
  most one process (none when no runtime is active). Its environment is the host
  environment with \<^verbatim>\<open>WINEPREFIX\<close> set to the sandbox root and \<^verbatim>\<open>LD_LIBRARY_PATH\<close> set to the
  fixed list: the assignment replaces whatever the host defines for it, and every other
  variable keeps its host value.
\<close>

theorem spawned_env_overrides_library_path:
  "spawned_envs (new_events w (snd (create_spore_registry c spore_path prefix_path w))) =
     (case active_proton_path c of
        None \<Rightarrow> []
      | Some proton_path \<Rightarrow>
          [(environ c)(''WINEPREFIX'' \<mapsto> str prefix_path,
                       ''LD_LIBRARY_PATH'' \<mapsto> ld_library_path)])
   \<and> spawned_envs (new_events w
         (snd (launch_installer_with_instructions c installer_exe prefix_path spore_path w))) =
     (case active_proton_path c of
        None \<Rightarrow> []
      | Some proton_path \<Rightarrow>
          [(environ c)(''WINEPREFIX'' \<mapsto> str prefix_path,
                       ''LD_LIBRARY_PATH'' \<mapsto> ld_library_path)])
   \<and> ((environ c)(''WINEPREFIX'' \<mapsto> str prefix_path,
                    ''LD_LIBRARY_PATH'' \<mapsto> ld_library_path)) ''WINEPREFIX''
       = Some (str prefix_path)
   \<and> ((environ c)(''WINEPREFIX'' \<mapsto> str prefix_path,
                    ''LD_LIBRARY_PATH'' \<mapsto> ld_library_path)) ''LD_LIBRARY_PATH''
       = Some ld_library_path"
  by (simp add: create_spore_registry_envs launch_installer_envs)

text \<open>
  C6, as the specification states it (the fixed list appended to the list of the host),
  fails on a host that defines \<^verbatim>\<open>LD_LIBRARY_PATH=/opt/host/lib\<close>: both spawned processes get
  the fixed list alone, and the directory of the host is not in it.
\<close>

theorem host_library_path_dropped_counterexample:
  "environ sample_collab ''LD_LIBRARY_PATH'' = Some ''/opt/host/lib''
   \<and> env_values ''LD_LIBRARY_PATH''
        (spawned_envs (new_events sample_world
           (snd (create_spore_registry sample_collab ''/games/Spore'' sample_prefix
              sample_world))))
       = [Some ''/usr/lib:/usr/lib/x86_64-linux-gnu:/lib:/lib/x86_64-linux-gnu'']
   \<and> env_values ''LD_LIBRARY_PATH''
        (spawned_envs (new_events sample_world
           (snd (launch_installer_with_instructions sample_collab
              [''home'', ''user'', ''.cache'', ''ModAPI.InterimSetup.exe''] sample_prefix
              ''/games/Spore'' sample_world))))
       = [Some ''/usr/lib:/usr/lib/x86_64-linux-gnu:/lib:/lib/x86_64-linux-gnu'']
   \<and> \<not> py_in ''/opt/host/lib''
         ''/usr/lib:/usr/lib/x86_64-linux-gnu:/lib:/lib/x86_64-linux-gnu''"
proof -
  have "\<not> py_in ''/opt/host/lib''
         ''/usr/lib:/usr/lib/x86_64-linux-gnu:/lib:/lib/x86_64-linux-gnu''"
    by code_simp
  then show ?thesis
    by (simp add: create_spore_registry_envs launch_installer_envs env_values_def
        sample_collab_def ld_library_path_def del: py_in.simps)
qed

section \<open>Registry import: the temporary document\<close>

lemma create_spore_registry_temp:
  "fs (snd (create_spore_registry c spore_path prefix_path w)) (temp_name c) =
     (case active_proton_path c of
        None \<Rightarrow> Some (File (reg_content spore_path) 384)
      | Some proton_path \<Rightarrow>
          (case regedit_run c of
             Completed returncode stderr \<Rightarrow> None
           | TimedOut e \<Rightarrow> Some (File (reg_content spore_path) 384)
           | RunRaised e \<Rightarrow> Some (File (reg_content spore_path) 384)))"
  by (simp add: create_spore_registry_def Let_def create_temp_def do_unlink_def
      unlink_missing_ok_def log_progress_def logger_error_def emit_def
      split: option.splits run_outcome.splits)

lemma create_spore_registry_completed:
  "active_proton_path c = Some proton_path \<Longrightarrow> regedit_run c = Completed returncode stderr
   \<Longrightarrow> \<not> exists (fs (snd (create_spore_registry c spore_path prefix_path w))) (temp_name c)
       \<and> fst (create_spore_registry c spore_path prefix_path w) = (returncode = 0)"
  by (simp add: create_spore_registry_temp exists_def)
     (simp add: create_spore_registry_def Let_def)

lemma unlink_missing_ok_absent: "f p = None \<Longrightarrow> unlink_missing_ok f p = f"
  by (auto simp: unlink_missing_ok_def)

text \<open>
  C5. The temporary registry document is to be gone after every import, whatever its
  outcome. It is gone when the import process ends, with any return code. When the wait
  of 60 seconds is cut off, or the process cannot be started, the exception passes over
  the \<^verbatim>\<open>unlink\<close> to the handler, which only logs: the installer reports failure and the
  document stays on disk. (It also stays when no runtime is active: the function returns
  before the import.)
\<close>

theorem temporary_document_outlives_failed_import:
  "exists (fs (snd (create_spore_registry c spore_path prefix_path w))) (temp_name c)
     \<longleftrightarrow> (active_proton_path c = None \<or> (\<forall>rc err. regedit_run c \<noteq> Completed rc err))"
  by (simp add: create_spore_registry_temp exists_def
      split: option.splits run_outcome.splits)

lemma temporary_document_after_timeout:
  "fst (create_spore_registry (sample_collab\<lparr>regedit_run := TimedOut ''timed out''\<rparr>)
          ''/games/Spore'' sample_prefix sample_world) = False
   \<and> fs (snd (create_spore_registry (sample_collab\<lparr>regedit_run := TimedOut ''timed out''\<rparr>)
          ''/games/Spore'' sample_prefix sample_world)) [''tmp'', ''tmpk3x9.reg'']
       = Some (File (reg_content ''/games/Spore'') 384)"
  using create_spore_registry_temp
    [of "sample_collab\<lparr>regedit_run := TimedOut ''timed out''\<rparr>" "''/games/Spore''"
      sample_prefix sample_world]
  by (simp add: sample_collab_def) (simp add: create_spore_registry_def Let_def)

section \<open>Install pipeline: no game, no sandbox\<close>

lemma find_spore_game_none:
  assumes "find_all_games c = Raises e \<or> (find_all_games c = Returns games \<and> first_spore games = None)"
  shows "find_spore_game c w =
     (None,
      w\<lparr>trace := trace w @
         [Log ''Searching for Spore installation...'', FindAllGames,
          (case find_all_games c of
             Raises e \<Rightarrow> LogError (''Failed to find Spore: '' @ e)
           | Returns all_games \<Rightarrow> Log ''Spore installation not found'')]\<rparr>)"
  using assms
  by (auto simp: find_spore_game_def Let_def log_progress_def logger_error_def emit_def)

text \<open>
  C7. When the game finder raises, or no game of its list mentions \<^verbatim>\<open>spore\<close>, \<^verbatim>\<open>install\<close>
  returns \<^verbatim>\<open>False\<close>, leaves the file system as it was (no sandbox directory is made),
  and does nothing but this: the opening message, the progress marks 0 and 5, the call of
  the finder with its two messages, and the message that Spore was not found.
\<close>

theorem install_without_game_stops_at_locate:
  assumes "find_all_games c = Raises e
           \<or> (find_all_games c = Returns games \<and> first_spore games = None)"
  shows "fst (install c custom_name has_log_callback has_progress_callback w) = False
    \<and> fs (snd (install c custom_name has_log_callback has_progress_callback w)) = fs w
    \<and> new_events w (snd (install c custom_name has_log_callback has_progress_callback w)) =
        [Log ''=== Starting Spore Mod Loader Installation ==='',
         Progress 0,
         Progress 5,
         Log ''Searching for Spore installation...'',
         FindAllGames,
         (case find_all_games c of
            Raises e \<Rightarrow> LogError (''Failed to find Spore: '' @ e)
          | Returns all_games \<Rightarrow> Log ''Spore installation not found''),
         Log ''ERROR: Spore not found. Please install Spore first.'']"
  by (simp add: install_def Let_def find_spore_game_none [OF assms] new_events_def
      log_progress_def send_progress_update_def emit_def)

theorem install_without_game_stops_at_locate_witness:
  "fst (install (sample_collab\<lparr>find_all_games :=
          Returns [\<lparr>name = ''Portal 2'', gpath = ''/games/Portal 2'', platform = ''Steam''\<rparr>]\<rparr>)
        None False False sample_world) = False
   \<and> fs (snd (install (sample_collab\<lparr>find_all_games :=
          Returns [\<lparr>name = ''Portal 2'', gpath = ''/games/Portal 2'', platform = ''Steam''\<rparr>]\<rparr>)
        None False False sample_world)) = Map.empty
   \<and> new_events sample_world (snd (install (sample_collab\<lparr>find_all_games :=
          Returns [\<lparr>name = ''Portal 2'', gpath = ''/games/Portal 2'', platform = ''Steam''\<rparr>]\<rparr>)
        None False False sample_world)) =
        [Log ''=== Starting Spore Mod Loader Installation ==='',
         Progress 0,
         Progress 5,
         Log ''Searching for Spore installation...'',
         FindAllGames,
         Log ''Spore installation not found'',
         Log ''ERROR: Spore not found. Please install Spore first.'']"
proof -
  let ?games = "[\<lparr>name = ''Portal 2'', gpath = ''/games/Portal 2'', platform = ''Steam''\<rparr>]"
  let ?c = "sample_collab\<lparr>find_all_games := Returns ?games\<rparr>"
  have "\<not> py_in ''spore'' (lower ''Portal 2'')"
    by code_simp
  then have "first_spore ?games = None"
    by (simp del: py_in.simps)
  then have "find_all_games ?c = Raises ''''
      \<or> (find_all_games ?c = Returns ?games \<and> first_spore ?games = None)"
    by simp
  from install_without_game_stops_at_locate [OF this, of None False False sample_world]
  show ?thesis
    by (simp add: sample_world_def)
qed

section \<open>Install pipeline: the dependency step and its marker\<close>

lemma new_events_trans:
  "trace w1 = trace w @ a \<Longrightarrow> trace w2 = trace w1 @ b \<Longrightarrow> new_events w w2 = a @ b"
  by (simp add: new_events_def)

lemma dependency_marker_path:
  "dependency_marker prefix_path = prefix_path @ [''.dependencies_installed'']"
  by (simp add: dependency_marker_def pjoin_name)

lemma dep_calls_simps:
  "dep_calls [] = 0"
  "dep_calls (DepInstall deps wine server pfx cdata client # tr) = Suc (dep_calls tr)"
  "dep_calls (Log m # tr) = dep_calls tr"
  "dep_calls (GetSteamRoot # tr) = dep_calls tr"
  "dep_calls (DepSetLogCallback # tr) = dep_calls tr"
  "dep_calls (DepSetProgressCallback # tr) = dep_calls tr"
  "dep_calls (FsTouch p # tr) = dep_calls tr"
  by (simp_all add: dep_calls_def)

lemma ensure_dependencies_marked:
  "exists (fs w) (dependency_marker prefix_path)
   \<Longrightarrow> ensure_dependencies c has_log_callback has_progress_callback prefix_path w =
       (Continue, w\<lparr>trace := trace w @ [Log ''Dependencies already installed, skipping...'']\<rparr>)"
  by (simp add: ensure_dependencies_def log_progress_def emit_def)

lemma ensure_dependencies_success:
  assumes "\<not> exists (fs w) (dependency_marker prefix_path)"
    and "active_proton_path c = Some proton_path"
    and "\<forall>e. steam_root c \<noteq> SteamUtilsRaises e"
    and "install_dependencies c = Returns result"
    and "success result"
  shows "fst (ensure_dependencies c has_log_callback has_progress_callback prefix_path w) = Continue"
    and "fs (snd (ensure_dependencies c has_log_callback has_progress_callback prefix_path w)) =
           (fs w)(dependency_marker prefix_path \<mapsto> File [] 420)"
    and "new_events w
           (snd (ensure_dependencies c has_log_callback has_progress_callback prefix_path w)) =
         [Log ''Installing Windows dependencies (vcrun2022, d3dcompiler_43)...'']
         @ (if has_log_callback then [DepSetLogCallback] else [])
         @ (if has_progress_callback then [DepSetProgressCallback] else [])
         @ [GetSteamRoot,
            DepInstall [''vcrun2022'', ''d3dcompiler_43''] (str (wine64 proton_path))
              (str (wineserver proton_path)) (str prefix_path) (str (parent prefix_path))
              (case steam_root c of SteamRoot r \<Rightarrow> r | _ \<Rightarrow> ''/tmp''),
            FsTouch (dependency_marker prefix_path),
            Log ''[OK] Dependencies installed successfully'']"
    and "trace (snd (ensure_dependencies c has_log_callback has_progress_callback prefix_path w)) =
         trace w @ new_events w
           (snd (ensure_dependencies c has_log_callback has_progress_callback prefix_path w))"
  using assms
  by (cases "steam_root c";
      simp add: ensure_dependencies_def Let_def log_progress_def emit_def do_touch_def touch_def
        exists_def new_events_def)+

lemma ensure_dependencies_marker_written:
  assumes "\<not> exists (fs w) (dependency_marker prefix_path)"
    and "exists (fs (snd (ensure_dependencies c has_log_callback has_progress_callback
            prefix_path w))) (dependency_marker prefix_path)"
  shows "\<exists>result. install_dependencies c = Returns result \<and> success result"
  using assms
  by (cases "active_proton_path c"; cases "steam_root c"; cases "install_dependencies c")
    (auto simp: ensure_dependencies_def Let_def log_progress_def emit_def exists_def
      split: if_splits)

text \<open>
  C2. The dependency step of \<^verbatim>\<open>install\<close>, run twice on the same sandbox, the marker
  absent at first and the first call of the delegate succeeding: both runs let the
  pipeline go on; the first calls the delegate once and then writes the marker; the second
  (whatever the collaborators would answer then) finds the marker, only logs that the
  step is skipped, and changes no file. So the delegate is called exactly once. The
  marker is written only after a successful call: whenever a run of the step finds the
  marker absent and leaves it present, the delegate has answered with success.
\<close>

theorem dependency_step_twice_installs_once:
  assumes "\<not> exists (fs w) (dependency_marker prefix_path)"
    and "active_proton_path c = Some proton_path"
    and "\<forall>e. steam_root c \<noteq> SteamUtilsRaises e"
    and "install_dependencies c = Returns result"
    and "success result"
    and "ensure_dependencies c has_log_callback has_progress_callback prefix_path w = (s1, w1)"
    and "ensure_dependencies c' has_log_callback' has_progress_callback' prefix_path w1 = (s2, w2)"
  shows "s1 = Continue \<and> s2 = Continue
    \<and> dep_calls (new_events w w1) = 1
    \<and> dep_calls (new_events w1 w2) = 0
    \<and> dep_calls (new_events w w2) = 1
    \<and> exists (fs w1) (dependency_marker prefix_path)
    \<and> after (DepInstall [''vcrun2022'', ''d3dcompiler_43''] (str (wine64 proton_path))
              (str (wineserver proton_path)) (str prefix_path) (str (parent prefix_path))
              (case steam_root c of SteamRoot r \<Rightarrow> r | _ \<Rightarrow> ''/tmp''))
         (new_events w w1) =
       [DepInstall [''vcrun2022'', ''d3dcompiler_43''] (str (wine64 proton_path))
              (str (wineserver proton_path)) (str prefix_path) (str (parent prefix_path))
              (case steam_root c of SteamRoot r \<Rightarrow> r | _ \<Rightarrow> ''/tmp''),
        FsTouch (dependency_marker prefix_path),
        Log ''[OK] Dependencies installed successfully'']
    \<and> new_events w1 w2 = [Log ''Dependencies already installed, skipping...'']
    \<and> fs w2 = fs w1
    \<and> (\<forall>c0 hl hp w0.
          \<not> exists (fs w0) (dependency_marker prefix_path)
          \<and> exists (fs (snd (ensure_dependencies c0 hl hp prefix_path w0)))
                (dependency_marker prefix_path)
          \<longrightarrow> (\<exists>r. install_dependencies c0 = Returns r \<and> success r))"
proof -
  note first = ensure_dependencies_success [OF assms(1-5), of has_log_callback has_progress_callback]
  from assms(6) first(1) have s1: "s1 = Continue" by simp
  from assms(6) first(2) have fs1: "fs w1 = (fs w)(dependency_marker prefix_path \<mapsto> File [] 420)"
    by simp
  from assms(6) first(3) have ev1: "new_events w w1 =
         [Log ''Installing Windows dependencies (vcrun2022, d3dcompiler_43)...'']
         @ (if has_log_callback then [DepSetLogCallback] else [])
         @ (if has_progress_callback then [DepSetProgressCallback] else [])
         @ [GetSteamRoot,
            DepInstall [''vcrun2022'', ''d3dcompiler_43''] (str (wine64 proton_path))
              (str (wineserver proton_path)) (str prefix_path) (str (parent prefix_path))
              (case steam_root c of SteamRoot r \<Rightarrow> r | _ \<Rightarrow> ''/tmp''),
            FsTouch (dependency_marker prefix_path),
            Log ''[OK] Dependencies installed successfully'']"
    by simp
  from fs1 have marked: "exists (fs w1) (dependency_marker prefix_path)"
    by (simp add: exists_def)
  from assms(7) ensure_dependencies_marked [OF marked, of c' has_log_callback' has_progress_callback']
  have second: "s2 = Continue"
    "w2 = w1\<lparr>trace := trace w1 @ [Log ''Dependencies already installed, skipping...'']\<rparr>"
    by simp_all
  from second(2) have ev2: "new_events w1 w2 = [Log ''Dependencies already installed, skipping...'']"
    and fs2: "fs w2 = fs w1"
    by (simp_all add: new_events_def)
  have calls1: "dep_calls (new_events w w1) = 1"
    unfolding ev1 by (simp add: dep_calls_simps)
  have calls2: "dep_calls (new_events w1 w2) = 0"
    unfolding ev2 by (simp add: dep_calls_simps)
  from assms(6) first(4) have t1: "trace w1 = trace w @ new_events w w1"
    by simp
  have t2: "trace w2 = trace w1 @ new_events w1 w2"
    unfolding ev2 using second(2) by simp
  from t1 t2 have "new_events w w2 = new_events w w1 @ new_events w1 w2"
    by (rule new_events_trans)
  with calls1 calls2 have calls: "dep_calls (new_events w w2) = 1"
    by (simp add: dep_calls_def)
  have order: "after (DepInstall [''vcrun2022'', ''d3dcompiler_43''] (str (wine64 proton_path))
              (str (wineserver proton_path)) (str prefix_path) (str (parent prefix_path))
              (case steam_root c of SteamRoot r \<Rightarrow> r | _ \<Rightarrow> ''/tmp''))
         (new_events w w1) =
       [DepInstall [''vcrun2022'', ''d3dcompiler_43''] (str (wine64 proton_path))
              (str (wineserver proton_path)) (str prefix_path) (str (parent prefix_path))
              (case steam_root c of SteamRoot r \<Rightarrow> r | _ \<Rightarrow> ''/tmp''),
        FsTouch (dependency_marker prefix_path),
        Log ''[OK] Dependencies installed successfully'']"
    unfolding ev1 by (simp add: after_def)
  have only: "\<forall>c0 hl hp w0.
          \<not> exists (fs w0) (dependency_marker prefix_path)
          \<and> exists (fs (snd (ensure_dependencies c0 hl hp prefix_path w0)))
                (dependency_marker prefix_path)
          \<longrightarrow> (\<exists>r. install_dependencies c0 = Returns r \<and> success r)"
  proof (intro allI impI)
    fix c0 hl hp w0
    assume "\<not> exists (fs w0) (dependency_marker prefix_path)
          \<and> exists (fs (snd (ensure_dependencies c0 hl hp prefix_path w0)))
                (dependency_marker prefix_path)"
    then show "\<exists>r. install_dependencies c0 = Returns r \<and> success r"
      by (elim conjE) (rule ensure_dependencies_marker_written)
  qed
  from s1 second(1) calls1 calls2 calls marked order ev2 fs2 only
  show ?thesis by (intro conjI)
qed

text \<open>
  The sample sandbox, empty at first: the first run calls the delegate and writes the
  marker; the second run, with a delegate that would raise, does not call it.
\<close>

theorem dependency_step_twice_installs_once_witness:
  "fst (ensure_dependencies sample_collab False False sample_prefix sample_world) = Continue
   \<and> fst (ensure_dependencies (sample_collab\<lparr>install_dependencies := Raises ''not called''\<rparr>) True True sample_prefix
        (snd (ensure_dependencies sample_collab False False sample_prefix sample_world))) = Continue
   \<and> dep_calls (new_events sample_world
        (snd (ensure_dependencies sample_collab False False sample_prefix sample_world))) = 1
   \<and> dep_calls (new_events
        (snd (ensure_dependencies sample_collab False False sample_prefix sample_world))
        (snd (ensure_dependencies (sample_collab\<lparr>install_dependencies := Raises ''not called''\<rparr>) True True sample_prefix
        (snd (ensure_dependencies sample_collab False False sample_prefix sample_world))))) = 0
   \<and> dep_calls (new_events sample_world
        (snd (ensure_dependencies (sample_collab\<lparr>install_dependencies := Raises ''not called''\<rparr>) True True sample_prefix
        (snd (ensure_dependencies sample_collab False False sample_prefix sample_world))))) = 1
   \<and> exists (fs (snd (ensure_dependencies sample_collab False False sample_prefix sample_world)))
        (dependency_marker sample_prefix)"
proof -
  let ?r1 = "ensure_dependencies sample_collab False False sample_prefix sample_world"
  let ?c2 = "sample_collab\<lparr>install_dependencies := Raises ''not called''\<rparr>"
  let ?r2 = "ensure_dependencies ?c2 True True sample_prefix (snd ?r1)"
  have h1: "\<not> exists (fs sample_world) (dependency_marker sample_prefix)"
    by (simp add: sample_world_def exists_def)
  have h2: "active_proton_path sample_collab = Some [''opt'', ''GE-Proton'', ''proton'']"
    by (simp add: sample_collab_def)
  have h3: "\<forall>e. steam_root sample_collab \<noteq> SteamUtilsRaises e"
    by (simp add: sample_collab_def)
  have h4: "install_dependencies sample_collab = Returns \<lparr>success = True, error = []\<rparr>"
    by (simp add: sample_collab_def)
  have h5: "success \<lparr>success = True, error = []\<rparr>"
    by simp
  have h6: "?r1 = (fst ?r1, snd ?r1)"
    by simp
  have h7: "?r2 = (fst ?r2, snd ?r2)"
    by simp
  note all = dependency_step_twice_installs_once [OF h1 h2 h3 h4 h5 h6 h7]
  from all show ?thesis
    by (elim conjE) (intro conjI; assumption)
qed

section \<open>Install pipeline: a failed registry import is a warning\<close>

text \<open>What the steps leave of the file system, and what they answer in any world.\<close>

lemma fs_steps:
  "fs (emit e w) = fs w"
  "fs (log_progress m w) = fs w"
  "fs (logger_error m w) = fs w"
  "fs (send_progress_update n w) = fs w"
  "fs (do_mkdir p w) = mkdir_parents (fs w) p"
  "fs (snd (find_spore_game c w)) = fs w"
  by (simp_all add: emit_def log_progress_def logger_error_def send_progress_update_def
      do_mkdir_def find_spore_game_def Let_def split: outcome.splits option.splits)

lemma exists_mkdir_marker:
  "exists (mkdir_parents f p) (dependency_marker p) = exists f (dependency_marker p)"
  by (simp add: exists_def mkdir_parents_def dependency_marker_path)

lemma fst_ensure_dependencies:
  "exists (fs w') (dependency_marker prefix_path) = exists (fs w) (dependency_marker prefix_path)
   \<Longrightarrow> fst (ensure_dependencies c has_log_callback has_progress_callback prefix_path w') =
       fst (ensure_dependencies c has_log_callback has_progress_callback prefix_path w)"
  by (simp add: ensure_dependencies_def Let_def
      split: option.splits steam_outcome.splits outcome.splits)

lemma fst_create_spore_registry:
  "fst (create_spore_registry c spore_path prefix_path w) =
     (case active_proton_path c of
        None \<Rightarrow> False
      | Some proton_path \<Rightarrow>
          (case regedit_run c of
             Completed returncode stderr \<Rightarrow> returncode = 0
           | TimedOut e \<Rightarrow> False
           | RunRaised e \<Rightarrow> False))"
  by (simp add: create_spore_registry_def Let_def split: option.splits run_outcome.splits)

lemma fst_download_modapi_installer:
  "fst (download_modapi_installer c w) = fst (download_modapi_installer c w')"
  by (simp add: download_modapi_installer_def Let_def
      split: outcome.splits option.splits)

lemma fst_launch_installer:
  "fst (launch_installer_with_instructions c installer_exe prefix_path spore_path w) =
     (case active_proton_path c of
        None \<Rightarrow> False
      | Some proton_path \<Rightarrow>
          (case popen_start c of
             Started \<Rightarrow> True
           | PopenTimedOut \<Rightarrow> True
           | PopenRaised e \<Rightarrow> False))"
  by (simp add: launch_installer_with_instructions_def Let_def
      split: option.splits popen_outcome.splits)

text \<open>No step takes an event back: the trace only grows.\<close>

lemma grows_emit: "prefix t (trace w) \<Longrightarrow> prefix t (trace (emit e w))"
  by (simp add: emit_def)

lemma grows_basic:
  "prefix t (trace w) \<Longrightarrow> prefix t (trace (log_progress m w))"
  "prefix t (trace w) \<Longrightarrow> prefix t (trace (logger_error m w))"
  "prefix t (trace w) \<Longrightarrow> prefix t (trace (send_progress_update n w))"
  "prefix t (trace w) \<Longrightarrow> prefix t (trace (do_mkdir p w))"
  "prefix t (trace w) \<Longrightarrow> prefix t (trace (do_touch p w))"
  "prefix t (trace w) \<Longrightarrow> prefix t (trace (do_unlink p w))"
  "prefix t (trace w) \<Longrightarrow> prefix t (trace (create_temp p s w))"
  "prefix t (trace w) \<Longrightarrow> prefix t (trace (setup_complete w))"
  by (simp_all add: emit_def log_progress_def logger_error_def send_progress_update_def
      do_mkdir_def do_touch_def do_unlink_def create_temp_def setup_complete_def)

lemma grows_if:
  "prefix t (trace a) \<Longrightarrow> prefix t (trace b) \<Longrightarrow> prefix t (trace (if P then a else b))"
  by simp

lemma grows_find_spore_game:
  "prefix t (trace w) \<Longrightarrow> prefix t (trace (snd (find_spore_game c w)))"
  by (simp add: find_spore_game_def Let_def grows_emit grows_basic
      split: outcome.splits option.splits)

lemma grows_ensure_dependencies:
  "prefix t (trace w)
   \<Longrightarrow> prefix t (trace (snd (ensure_dependencies c has_log_callback has_progress_callback
          prefix_path w)))"
  by (simp add: ensure_dependencies_def Let_def grows_emit grows_basic
      split: option.splits steam_outcome.splits outcome.splits)

lemma grows_create_spore_registry:
  "prefix t (trace w)
   \<Longrightarrow> prefix t (trace (snd (create_spore_registry c spore_path prefix_path w)))"
  by (simp add: create_spore_registry_def Let_def grows_emit grows_basic
      split: option.splits run_outcome.splits)

lemma grows_download_modapi_installer:
  "prefix t (trace w) \<Longrightarrow> prefix t (trace (snd (download_modapi_installer c w)))"
  by (simp add: download_modapi_installer_def Let_def grows_emit grows_basic
      split: outcome.splits option.splits)

lemma grows_launch_installer:
  "prefix t (trace w)
   \<Longrightarrow> prefix t (trace (snd (launch_installer_with_instructions c installer_exe prefix_path
          spore_path w)))"
  by (simp add: launch_installer_with_instructions_def Let_def grows_emit grows_basic
      split: option.splits popen_outcome.splits)

lemma grows_refl: "prefix (trace w) (trace w)"
  by (simp add: prefix_def)

lemma grows_trans:
  "prefix (trace a) (trace b) \<Longrightarrow> prefix (trace b) (trace c) \<Longrightarrow> prefix (trace a) (trace c)"
  by (auto simp: prefix_def)

lemmas grows = grows_refl grows_emit grows_basic grows_if grows_find_spore_game grows_ensure_dependencies
  grows_create_spore_registry grows_download_modapi_installer grows_launch_installer

lemma new_events_within:
  assumes "prefix (trace a) (trace b)" and "prefix (trace b) (trace c)"
    and "prefix (trace c) (trace d)"
  shows "set (new_events b c) \<subseteq> set (new_events a d)"
proof -
  from assms obtain x y z where "trace b = trace a @ x" "trace c = trace b @ y"
    "trace d = trace c @ z"
    by (auto simp: prefix_def)
  then show ?thesis by (auto simp: new_events_def)
qed

lemma new_events_split:
  assumes "prefix (trace a) (trace b)" and "prefix (trace b @ [e]) (trace d)"
  shows "new_events a d = new_events a b @ e # drop (Suc (length (trace b))) (trace d)"
proof -
  from assms obtain x z where "trace b = trace a @ x" "trace d = (trace b @ [e]) @ z"
    by (auto simp: prefix_def)
  then show ?thesis by (simp add: new_events_def)
qed

text \<open>The download asks for the latest release; a launch that succeeds has spawned the
  installer.\<close>

lemma download_asks_release:
  "GetLatestRelease \<in> set (new_events w (snd (download_modapi_installer c w)))"
  by (simp add: download_modapi_installer_def Let_def new_events_def log_progress_def
      logger_error_def emit_def split: outcome.splits option.splits)

lemma launch_spawns_installer:
  assumes "fst (launch_installer_with_instructions c installer_exe prefix_path spore_path w)"
  shows "\<exists>proton_path env.
      Popen [str (wine64 proton_path), str installer_exe] env
        \<in> set (new_events w
            (snd (launch_installer_with_instructions c installer_exe prefix_path spore_path w)))"
  using assms
  by (cases "active_proton_path c"; cases "popen_start c")
    (auto simp: launch_installer_with_instructions_def Let_def new_events_def
      log_progress_def logger_error_def emit_def)

text \<open>
  C3. Let the pipeline reach the registry step (a game is found and the dependency step
  lets it go on), let the registry import fail, and let the download and the launch of
  the installer succeed. Then \<^verbatim>\<open>install\<close> returns \<^verbatim>\<open>True\<close>; the failure shows only as the
  warning \<^verbatim>\<open>WARNING: Failed to apply registry keys\<close> in the log, and after that warning the
  latest release is asked for and the downloaded installer is spawned.
\<close>

theorem registry_failure_is_only_a_warning:
  assumes pp: "prefix_path =
      pjoin (pjoin (prefixes_dir c)
        (case custom_name of
           None \<Rightarrow> ''spore_modloader''
         | Some n \<Rightarrow> if n = [] then ''spore_modloader'' else n)) ''pfx''"
    and game: "fst (find_spore_game c w) = Some g"
    and deps: "fst (ensure_dependencies c has_log_callback has_progress_callback prefix_path w)
      = Continue"
    and reg: "\<not> fst (create_spore_registry c (gpath g) prefix_path w)"
    and dl: "fst (download_modapi_installer c w) = Some exe"
    and launch: "fst (launch_installer_with_instructions c exe prefix_path (gpath g) w)"
  shows "fst (install c custom_name has_log_callback has_progress_callback w)
    \<and> (\<exists>front back.
          new_events w (snd (install c custom_name has_log_callback has_progress_callback w)) =
            front @ Log ''WARNING: Failed to apply registry keys'' # back
          \<and> GetLatestRelease \<in> set back
          \<and> (\<exists>proton_path env. Popen [str (wine64 proton_path), str exe] env \<in> set back))"
proof -
  define w2 where "w2 = snd (find_spore_game c
      (send_progress_update 5
        (send_progress_update 0
          (log_progress ''=== Starting Spore Mod Loader Installation ==='' w))))"
  define w3 where "w3 =
      (if exists (fs w2) prefix_path
       then log_progress (''Using existing Wine prefix: '' @ str prefix_path) w2
       else log_progress (''Created Wine prefix: '' @ str prefix_path)
              (do_mkdir prefix_path w2))"
  define w5 where "w5 = snd (ensure_dependencies c has_log_callback has_progress_callback
      prefix_path (send_progress_update 15 (send_progress_update 10 w3)))"
  define w6 where "w6 = snd (create_spore_registry c (gpath g) prefix_path
      (send_progress_update 40 w5))"
  define w7 where "w7 = log_progress ''WARNING: Failed to apply registry keys'' w6"
  define w8 where "w8 = snd (download_modapi_installer c (send_progress_update 50 w7))"
  define w9 where "w9 = snd (launch_installer_with_instructions c exe prefix_path (gpath g)
      (send_progress_update 60 w8))"
  have F1: "fst (find_spore_game c W) = Some g" for W
    using game by (simp add: fst_find_spore_game)
  have marker: "exists (fs (send_progress_update 15 (send_progress_update 10 w3)))
        (dependency_marker prefix_path) = exists (fs w) (dependency_marker prefix_path)"
    by (simp add: w3_def w2_def fs_steps exists_mkdir_marker)
  have F2: "fst (ensure_dependencies c has_log_callback has_progress_callback prefix_path
        (send_progress_update 15 (send_progress_update 10 w3))) = Continue"
    using fst_ensure_dependencies [OF marker] deps by simp
  have F3: "fst (create_spore_registry c (gpath g) prefix_path W) = False" for W
    using reg by (simp add: fst_create_spore_registry)
  have F4: "fst (download_modapi_installer c W) = Some exe" for W
    using dl fst_download_modapi_installer [of c W w] by simp
  have F5: "fst (launch_installer_with_instructions c exe prefix_path (gpath g) W) = True" for W
    using launch by (simp add: fst_launch_installer)
  have inst: "install c custom_name has_log_callback has_progress_callback w =
      (True, setup_complete w9)"
    unfolding install_def Let_def split_beta pp [symmetric] F1 option.case
      w2_def [symmetric] w3_def [symmetric] F2 step.case w5_def [symmetric] F3
      not_False_eq_True if_True w6_def [symmetric] w7_def [symmetric] F4
      w8_def [symmetric] F5 not_True_eq_False if_False w9_def [symmetric]
    by (rule refl)
  have front: "prefix (trace w) (trace w6)"
    unfolding w6_def w5_def w3_def w2_def by (intro grows)
  have warn: "trace w7 = trace w6 @ [Log ''WARNING: Failed to apply registry keys'']"
    by (simp add: w7_def log_progress_def emit_def)
  have a: "prefix (trace w7) (trace (send_progress_update 50 w7))"
    by (intro grows)
  have b: "prefix (trace (send_progress_update 50 w7)) (trace w8)"
    unfolding w8_def by (intro grows)
  have c: "prefix (trace w8) (trace (send_progress_update 60 w8))"
    by (intro grows)
  have d: "prefix (trace (send_progress_update 60 w8)) (trace w9)"
    unfolding w9_def by (intro grows)
  have e: "prefix (trace w9) (trace (setup_complete w9))"
    by (intro grows)
  have a8: "prefix (trace w7) (trace w8)"
    using a b by (rule grows_trans)
  have a8': "prefix (trace w7) (trace (send_progress_update 60 w8))"
    using a8 c by (rule grows_trans)
  have b9: "prefix (trace w8) (trace w9)"
    using c d by (rule grows_trans)
  have b10: "prefix (trace w8) (trace (setup_complete w9))"
    using b9 e by (rule grows_trans)
  have all: "prefix (trace w7) (trace (setup_complete w9))"
    using a8 b10 by (rule grows_trans)
  have "set (new_events (send_progress_update 50 w7) w8)
      \<subseteq> set (new_events w7 (setup_complete w9))"
    using a b b10 by (rule new_events_within)
  with download_asks_release [of "send_progress_update 50 w7" c]
  have release: "GetLatestRelease \<in> set (new_events w7 (setup_complete w9))"
    unfolding w8_def by blast
  have "set (new_events (send_progress_update 60 w8) w9)
      \<subseteq> set (new_events w7 (setup_complete w9))"
    using a8' d e by (rule new_events_within)
  moreover from F5 launch_spawns_installer
      [of c exe prefix_path "gpath g" "send_progress_update 60 w8"]
  obtain proton_path env where
    "Popen [str (wine64 proton_path), str exe] env
       \<in> set (new_events (send_progress_update 60 w8) w9)"
    unfolding w9_def by auto
  ultimately have spawn: "\<exists>proton_path env.
      Popen [str (wine64 proton_path), str exe] env
        \<in> set (new_events w7 (setup_complete w9))"
    by blast
  from all have "prefix (trace w6 @ [Log ''WARNING: Failed to apply registry keys''])
      (trace (setup_complete w9))"
    unfolding warn .
  with front have split: "new_events w (setup_complete w9) =
      new_events w w6 @ Log ''WARNING: Failed to apply registry keys''
        # drop (Suc (length (trace w6))) (trace (setup_complete w9))"
    by (rule new_events_split)
  have tail_eq: "new_events w7 (setup_complete w9) =
      drop (Suc (length (trace w6))) (trace (setup_complete w9))"
    by (simp add: new_events_def warn)
  from split release spawn
  have "new_events w (setup_complete w9) =
        new_events w w6 @ Log ''WARNING: Failed to apply registry keys''
          # new_events w7 (setup_complete w9)
      \<and> GetLatestRelease \<in> set (new_events w7 (setup_complete w9))
      \<and> (\<exists>proton_path env. Popen [str (wine64 proton_path), str exe] env
            \<in> set (new_events w7 (setup_complete w9)))"
    unfolding tail_eq by (intro conjI)
  then have "\<exists>front back.
      new_events w (setup_complete w9) =
        front @ Log ''WARNING: Failed to apply registry keys'' # back
      \<and> GetLatestRelease \<in> set back
      \<and> (\<exists>proton_path env. Popen [str (wine64 proton_path), str exe] env \<in> set back)"
    by (intro exI)
  then show ?thesis
    by (simp add: inst)
qed

text \<open>
  The sample installation with a registry import that ends with return code 1.
\<close>

theorem registry_failure_is_only_a_warning_witness:
  "fst (install (sample_collab\<lparr>regedit_run := Completed 1 ''regedit failed''\<rparr>)
          None False False sample_world)
    \<and> (\<exists>front back.
          new_events sample_world (snd (install (sample_collab\<lparr>regedit_run := Completed 1 ''regedit failed''\<rparr>)
          None False False sample_world)) =
            front @ Log ''WARNING: Failed to apply registry keys'' # back
          \<and> GetLatestRelease \<in> set back
          \<and> (\<exists>proton_path env.
                Popen [str (wine64 proton_path),
                       str (path_of ''/home/user/.cache/ModAPI.InterimSetup.exe'')] env
                  \<in> set back))"
proof -
  let ?c = "sample_collab\<lparr>regedit_run := Completed 1 ''regedit failed''\<rparr>"
  let ?pp = "pjoin (pjoin (prefixes_dir ?c) ''spore_modloader'') ''pfx''"
  let ?g = "\<lparr>name = ''SPORE: Galactic Adventures'', gpath = ''/games/SporeGA'',
             platform = ''Steam''\<rparr>"
  have pp: "?pp = pjoin (pjoin (prefixes_dir ?c)
        (case None of
           None \<Rightarrow> ''spore_modloader''
         | Some n \<Rightarrow> if n = [] then ''spore_modloader'' else n)) ''pfx''"
    by simp
  have "first_spore sample_games = Some ?g"
    by code_simp
  then have game: "fst (find_spore_game ?c sample_world) = Some ?g"
    by (simp add: fst_find_spore_game sample_collab_def del: first_spore.simps)
  have deps: "fst (ensure_dependencies ?c False False ?pp sample_world) = Continue"
    by (simp add: ensure_dependencies_def Let_def sample_collab_def sample_world_def
        exists_def)
  have reg: "\<not> fst (create_spore_registry ?c (gpath ?g) ?pp sample_world)"
    by (simp add: fst_create_spore_registry sample_collab_def)
  have dl: "fst (download_modapi_installer ?c sample_world) =
      Some (path_of ''/home/user/.cache/ModAPI.InterimSetup.exe'')"
    by (simp add: download_modapi_installer_def Let_def sample_collab_def sample_release_def
        del: path_of_def)
  have launch: "fst (launch_installer_with_instructions ?c
      (path_of ''/home/user/.cache/ModAPI.InterimSetup.exe'') ?pp (gpath ?g) sample_world)"
    by (simp add: fst_launch_installer sample_collab_def)
  show ?thesis
    by (rule registry_failure_is_only_a_warning [OF pp game deps reg dl launch])
qed

section \<open>Launch script generator: one script per executable that is there\<close>










end
